theory Spec2Isabelle
  imports Complex_Main "HOL-Library.Log_Nat"
begin

section \<open>Entity and constant model (src/src/types/index.ts)\<close>

text \<open>
  The game-state engine of the repository lives in the \<open>PeerProvider\<close> component
  (\<^verbatim>\<open>src/unnamed/part_004\<close>, first document). Its data are the interfaces of
  \<open>types/index.ts\<close>. Modelling decisions:
  \<^item> a JavaScript \<open>number\<close> that carries a resource amount or a rate is the \<open>rat\<close> it
    denotes. The accrual of the ticker, which produces fractions, rounds every operation
    as IEEE binary64 does (\<open>fadd\<close>, \<open>fdiv\<close> below). The subtraction of a cost and the
    change of a rate by 1 are written with the exact operation: the costs are integers
    not above the amount and the rates are small integers, where binary64 is exact;
  \<^item> a grid coordinate and a timestamp are \<open>int\<close>;
  \<^item> \<open>Record<string, Player>\<close> is an association list in \<open>Object.keys\<close> order;
    a well-formed roster has distinct keys;
  \<^item> \<open>T | null\<close> is \<open>T option\<close>;
  \<^item> reading a property of \<open>undefined\<close> throws a \<open>TypeError\<close>, which is the
    \<open>Inl\<close> branch of the result of every operation;
  \<^item> \<open>JSON.parse(JSON.stringify(s))\<close> is a deep copy, hence the identity on values.
  Record fields keep the source's names except where two interfaces share a field name
  or the name is taken in HOL (\<open>x\<close>, \<open>y\<close>, \<open>id\<close>, \<open>name\<close>, \<open>type\<close>).
\<close>

datatype Faction = HUMANS | ALIENS | ROBOTS

datatype ConstructType = GOLD | UNIT | DEFENSE | NONE

datatype error = TypeError

record Construct =
  ctype :: ConstructType
  cownerId :: "string option"

record Tile =
  tx :: int
  ty :: int
  ownerId :: "string option"
  tcolor :: "string option"
  construct :: "Construct option"
  defenseBonus :: rat

record Player =
  pid :: string
  pname :: string
  isReady :: bool
  color :: string
  faction :: Faction
  gold :: rat
  units :: rat
  goldRate :: rat
  unitRate :: rat
  tiles :: "(int \<times> int) list"

type_synonym roster = "(string \<times> Player) list"

record GameState =
  gameStarted :: bool
  currentTurn :: "string option"
  grid :: "Tile list list"
  players :: roster
  gameEndTime :: "int option"
  gameOver :: bool
  winner :: "string option"

record LobbyState =
  lobbyId :: string
  lplayers :: roster
  host :: string
  lgameStarted :: bool

text \<open>The state a participant's provider closes over: \<open>myId\<close>, \<open>lobbyState\<close>, \<open>gameState\<close>.\<close>

record Store =
  myId :: string
  lobbyState :: "LobbyState option"
  gameState :: "GameState option"

definition GRID_SIZE :: nat where
  "GRID_SIZE = 24"

definition MAX_PLAYERS :: nat where
  "MAX_PLAYERS = 3"

definition GAME_DURATION_MS :: int where
  "GAME_DURATION_MS = 5 * 60 * 1000"

section \<open>Access to the roster and the grid\<close>

text \<open>\<open>players[k].field = ...\<close> on the copy: the entry under key \<open>k\<close> is rewritten in place.\<close>

definition updatePlayer :: "string \<Rightarrow> (Player \<Rightarrow> Player) \<Rightarrow> roster \<Rightarrow> roster" where
  "updatePlayer k f ps = map (\<lambda>(k', p). if k' = k then (k', f p) else (k', p)) ps"

text \<open>\<open>grid[y][x].field = ...\<close> on the copy, used once \<open>(x, y)\<close> is known to be in range.\<close>

definition updateTile :: "Tile list list \<Rightarrow> int \<Rightarrow> int \<Rightarrow> (Tile \<Rightarrow> Tile) \<Rightarrow> Tile list list" where
  "updateTile g x y f = g[nat y := (g ! nat y)[nat x := f (g ! nat y ! nat x)]]"

definition inRows :: "Tile list list \<Rightarrow> int \<Rightarrow> bool" where
  "inRows g y = (0 \<le> y \<and> y < int (length g))"

definition inRow :: "Tile list list \<Rightarrow> int \<Rightarrow> int \<Rightarrow> bool" where
  "inRow g x y = (0 \<le> x \<and> x < int (length (g ! nat y)))"

section \<open>claimTile\<close>

text \<open>The callback of \<open>player.tiles.some\<close> (lines 481-486).\<close>

definition isAdjacent :: "(int \<times> int) list \<Rightarrow> int \<Rightarrow> int \<Rightarrow> bool" where
  "isAdjacent ts x y =
     list_ex (\<lambda>playerTile.
        (\<bar>fst playerTile - x\<bar> = 1 \<and> snd playerTile = y) \<or>
        (\<bar>snd playerTile - y\<bar> = 1 \<and> fst playerTile = x)) ts"

text \<open>\<open>tile.ownerId !== null && tile.ownerId !== myId\<close>.\<close>

definition contested :: "string \<Rightarrow> Tile \<Rightarrow> bool" where
  "contested me tile = (ownerId tile \<noteq> None \<and> ownerId tile \<noteq> Some me)"

text \<open>
  Lines 499-509: the tile leaves the previous owner's list. \<open>players[tile.ownerId]\<close> is
  \<open>undefined\<close> for an owner that is not in the roster, and reading its \<open>tiles\<close> throws.
\<close>

definition removeFromPreviousOwner ::
    "string \<Rightarrow> Tile \<Rightarrow> int \<Rightarrow> int \<Rightarrow> roster \<Rightarrow> error + roster" where
  "removeFromPreviousOwner me tile x y ps =
     (case ownerId tile of
        None \<Rightarrow> Inr ps
      | Some prev \<Rightarrow>
          if prev = me then Inr ps
          else (case map_of ps prev of
                  None \<Rightarrow> Inl TypeError
                | Some previousOwner \<Rightarrow>
                    Inr (updatePlayer prev
                          (\<lambda>p. p\<lparr>tiles := filter (\<lambda>t. \<not> (fst t = x \<and> snd t = y)) (tiles p)\<rparr>) ps)))"

text \<open>Lines 518-523: the winner by elimination.\<close>

definition checkElimination :: "GameState \<Rightarrow> GameState" where
  "checkElimination gs =
     (let activePlayers = filter (\<lambda>p. length (tiles p) > 0) (map snd (players gs))
      in if length activePlayers = 1
         then gs\<lparr>gameOver := True, winner := Some (pid (hd activePlayers))\<rparr>
         else gs)"

text \<open>Lines 493-497: the costs are taken from the acting player's record.\<close>

definition spendResources :: "string \<Rightarrow> Tile \<Rightarrow> rat \<Rightarrow> rat \<Rightarrow> roster \<Rightarrow> roster" where
  "spendResources me tile goldCost unitCost ps =
     (let ps1 = updatePlayer me (\<lambda>p. p\<lparr>gold := gold p - goldCost\<rparr>) ps
      in if contested me tile
         then updatePlayer me (\<lambda>p. p\<lparr>units := units p - unitCost\<rparr>) ps1
         else ps1)"

text \<open>Lines 490-523, after every check has passed: the writes on the copy.\<close>

definition claimApply ::
    "string \<Rightarrow> GameState \<Rightarrow> int \<Rightarrow> int \<Rightarrow> rat \<Rightarrow> rat \<Rightarrow> Tile \<Rightarrow> Player \<Rightarrow> error + GameState" where
  "claimApply me gs x y goldCost unitCost tile player =
     (case removeFromPreviousOwner me tile x y
             (spendResources me tile goldCost unitCost (players gs)) of
        Inl e \<Rightarrow> Inl e
      | Inr ps3 \<Rightarrow>
          Inr (checkElimination
                (gs\<lparr>grid := updateTile (grid gs) x y
                              (\<lambda>t. t\<lparr>ownerId := Some me, tcolor := Some (color player)\<rparr>),
                    players := updatePlayer me (\<lambda>p. p\<lparr>tiles := tiles p @ [(x, y)]\<rparr>) ps3\<rparr>)))"

text \<open>
  Lines 473-488 and the rest of the body on a present game state. \<open>Inr None\<close> is
  \<open>return false\<close>, \<open>Inr (Some gs')\<close> is \<open>setGameState(gs'); return true\<close>. The order
  of the checks is the source's: \<open>grid[y][x]\<close> throws when row \<open>y\<close> is missing, the gold
  check comes before the first read of \<open>tile.ownerId\<close>.
\<close>

definition claimTileOn ::
    "string \<Rightarrow> GameState \<Rightarrow> int \<Rightarrow> int \<Rightarrow> rat \<Rightarrow> rat \<Rightarrow> error + GameState option" where
  "claimTileOn me gs x y goldCost unitCost =
     (if \<not> inRows (grid gs) y then Inl TypeError
      else case map_of (players gs) me of
        None \<Rightarrow> Inl TypeError
      | Some player \<Rightarrow>
          if gold player < goldCost then Inr None
          else if \<not> inRow (grid gs) x y then Inl TypeError
          else
            let tile = grid gs ! nat y ! nat x in
            if contested me tile \<and> units player < unitCost then Inr None
            else if \<not> isAdjacent (tiles player) x y then Inr None
            else (case claimApply me gs x y goldCost unitCost tile player of
                    Inl e \<Rightarrow> Inl e
                  | Inr gs' \<Rightarrow> Inr (Some gs')))"

text \<open>
  Lifting of an operation body to the store: \<open>if (!gameState || !lobbyState) return false\<close>,
  then the body; a returned state is stored with \<open>setGameState\<close>.
\<close>

definition onStore ::
    "Store \<Rightarrow> (string \<Rightarrow> GameState \<Rightarrow> error + GameState option) \<Rightarrow> error + (bool \<times> Store)" where
  "onStore st body =
     (case gameState st of
        None \<Rightarrow> Inr (False, st)
      | Some gs \<Rightarrow>
          (case lobbyState st of
             None \<Rightarrow> Inr (False, st)
           | Some l \<Rightarrow>
               (case body (myId st) gs of
                  Inl e \<Rightarrow> Inl e
                | Inr None \<Rightarrow> Inr (False, st)
                | Inr (Some gs') \<Rightarrow> Inr (True, st\<lparr>gameState := Some gs'\<rparr>))))"

definition claimTile :: "Store \<Rightarrow> int \<Rightarrow> int \<Rightarrow> rat \<Rightarrow> rat \<Rightarrow> error + (bool \<times> Store)" where
  "claimTile st x y goldCost unitCost =
     onStore st (\<lambda>me gs. claimTileOn me gs x y goldCost unitCost)"

section \<open>buildConstruct and demolishConstruct\<close>

text \<open>The \<open>switch\<close> of lines 568-581; \<open>None\<close> is the \<open>default: return false\<close>.\<close>

definition constructCost :: "ConstructType \<Rightarrow> rat option" where
  "constructCost constructType =
     (case constructType of
        GOLD \<Rightarrow> Some 20
      | UNIT \<Rightarrow> Some 15
      | DEFENSE \<Rightarrow> Some 25
      | NONE \<Rightarrow> None)"

text \<open>Lines 586-605: the writes of a build on the copy.\<close>

definition buildApply :: "string \<Rightarrow> GameState \<Rightarrow> int \<Rightarrow> int \<Rightarrow> ConstructType \<Rightarrow> rat \<Rightarrow> GameState" where
  "buildApply me gs x y constructType goldCost =
     (let ps1 = updatePlayer me (\<lambda>p. p\<lparr>gold := gold p - goldCost\<rparr>) (players gs);
          g1 = updateTile (grid gs) x y
                 (\<lambda>t. t\<lparr>construct := Some \<lparr>ctype = constructType, cownerId = Some me\<rparr>\<rparr>)
      in if constructType = GOLD
         then gs\<lparr>grid := g1, players := updatePlayer me (\<lambda>p. p\<lparr>goldRate := goldRate p + 1\<rparr>) ps1\<rparr>
         else if constructType = UNIT
         then gs\<lparr>grid := g1, players := updatePlayer me (\<lambda>p. p\<lparr>unitRate := unitRate p + 1\<rparr>) ps1\<rparr>
         else if constructType = DEFENSE
         then gs\<lparr>grid := updateTile g1 x y (\<lambda>t. t\<lparr>defenseBonus := 10\<rparr>), players := ps1\<rparr>
         else gs\<lparr>grid := g1, players := ps1\<rparr>)"

definition buildConstructOn ::
    "string \<Rightarrow> GameState \<Rightarrow> int \<Rightarrow> int \<Rightarrow> ConstructType \<Rightarrow> error + GameState option" where
  "buildConstructOn me gs x y constructType =
     (if \<not> inRows (grid gs) y then Inl TypeError
      else if \<not> inRow (grid gs) x y then Inl TypeError
      else
        let tile = grid gs ! nat y ! nat x in
        if ownerId tile \<noteq> Some me then Inr None
        else if construct tile \<noteq> None then Inr None
        else (case constructCost constructType of
                None \<Rightarrow> Inr None
              | Some goldCost \<Rightarrow>
                  (case map_of (players gs) me of
                     None \<Rightarrow> Inl TypeError
                   | Some player \<Rightarrow>
                       if gold player < goldCost then Inr None
                       else Inr (Some (buildApply me gs x y constructType goldCost)))))"

definition buildConstruct :: "Store \<Rightarrow> int \<Rightarrow> int \<Rightarrow> ConstructType \<Rightarrow> error + (bool \<times> Store)" where
  "buildConstruct st x y constructType =
     onStore st (\<lambda>me gs. buildConstructOn me gs x y constructType)"

text \<open>
  Lines 649-662. The acting player's record is read only in the \<open>GOLD\<close> and \<open>UNIT\<close>
  branches, so only there a missing record throws.
\<close>

definition demolishApply :: "string \<Rightarrow> GameState \<Rightarrow> int \<Rightarrow> int \<Rightarrow> ConstructType \<Rightarrow> error + GameState" where
  "demolishApply me gs x y constructType =
     (let clear = (\<lambda>g. updateTile g x y (\<lambda>t. t\<lparr>construct := None\<rparr>))
      in if constructType = GOLD
         then (case map_of (players gs) me of
                 None \<Rightarrow> Inl TypeError
               | Some player \<Rightarrow>
                   Inr (gs\<lparr>grid := clear (grid gs),
                           players := updatePlayer me (\<lambda>p. p\<lparr>goldRate := goldRate p - 1\<rparr>) (players gs)\<rparr>))
         else if constructType = UNIT
         then (case map_of (players gs) me of
                 None \<Rightarrow> Inl TypeError
               | Some player \<Rightarrow>
                   Inr (gs\<lparr>grid := clear (grid gs),
                           players := updatePlayer me (\<lambda>p. p\<lparr>unitRate := unitRate p - 1\<rparr>) (players gs)\<rparr>))
         else if constructType = DEFENSE
         then Inr (gs\<lparr>grid := clear (updateTile (grid gs) x y (\<lambda>t. t\<lparr>defenseBonus := 0\<rparr>))\<rparr>)
         else Inr (gs\<lparr>grid := clear (grid gs)\<rparr>))"

definition demolishConstructOn ::
    "string \<Rightarrow> GameState \<Rightarrow> int \<Rightarrow> int \<Rightarrow> error + GameState option" where
  "demolishConstructOn me gs x y =
     (if \<not> inRows (grid gs) y then Inl TypeError
      else if \<not> inRow (grid gs) x y then Inl TypeError
      else
        let tile = grid gs ! nat y ! nat x in
        if ownerId tile \<noteq> Some me then Inr None
        else (case construct tile of
                None \<Rightarrow> Inr None
              | Some c \<Rightarrow>
                  (case demolishApply me gs x y (ctype c) of
                     Inl e \<Rightarrow> Inl e
                   | Inr gs' \<Rightarrow> Inr (Some gs'))))"

definition demolishConstruct :: "Store \<Rightarrow> int \<Rightarrow> int \<Rightarrow> error + (bool \<times> Store)" where
  "demolishConstruct st x y = onStore st (\<lambda>me gs. demolishConstructOn me gs x y)"

section \<open>initializeGameState and startGame\<close>

definition emptyTile :: "int \<Rightarrow> int \<Rightarrow> Tile" where
  "emptyTile x y =
     \<lparr>tx = x, ty = y, ownerId = None, tcolor = None, construct = None, defenseBonus = 0\<rparr>"

definition emptyGrid :: "Tile list list" where
  "emptyGrid = map (\<lambda>y. map (\<lambda>x. emptyTile (int x) (int y)) [0..<GRID_SIZE]) [0..<GRID_SIZE]"

definition startingPositions :: "(int \<times> int) list" where
  "startingPositions =
     [(3, 3), (int GRID_SIZE - 4, int GRID_SIZE - 4), (3, int GRID_SIZE - 4)]"

text \<open>
  \<open>playerIds.forEach((playerId, index) => ...)\<close> of lines 96-110 on the grid and the
  roster. The ids are the roster's own keys, so \<open>players[playerId]\<close> is always defined;
  the \<open>None\<close> branch only makes the function total.
\<close>

fun assignStart ::
    "nat \<Rightarrow> string list \<Rightarrow> Tile list list \<times> roster \<Rightarrow> Tile list list \<times> roster" where
  "assignStart index [] (g, ps) = (g, ps)"
| "assignStart index (playerId # playerIds) (g, ps) =
     assignStart (Suc index) playerIds
       (if index < length startingPositions
        then (case map_of ps playerId of
                None \<Rightarrow> (g, ps)
              | Some player \<Rightarrow>
                  (let pos = startingPositions ! index
                   in (updateTile g (fst pos) (snd pos)
                         (\<lambda>t. t\<lparr>ownerId := Some playerId, tcolor := Some (color player)\<rparr>),
                       updatePlayer playerId
                         (\<lambda>p. p\<lparr>tiles := [pos],
                                unitRate := (if faction p = ALIENS then 1 else unitRate p)\<rparr>) ps)))
        else (g, ps))"

text \<open>\<open>now\<close> is the value of \<open>Date.now()\<close>; \<open>playerIds[0]\<close> is \<open>undefined\<close> on an empty roster.\<close>

definition initializeGameState :: "roster \<Rightarrow> int \<Rightarrow> GameState" where
  "initializeGameState ps now =
     (let playerIds = map fst ps;
          (g, ps') = assignStart 0 playerIds (emptyGrid, ps)
      in \<lparr>gameStarted = True,
          currentTurn = (case playerIds of [] \<Rightarrow> None | k # _ \<Rightarrow> Some k),
          grid = g,
          players = ps',
          gameEndTime = Some (now + GAME_DURATION_MS),
          gameOver = False,
          winner = None\<rparr>)"

text \<open>
  Lines 371-379. \<open>initializeGameState\<close> writes into the player objects of the lobby, which
  the new game state and the updated lobby state share.
\<close>

definition startGame :: "Store \<Rightarrow> int \<Rightarrow> Store" where
  "startGame st now =
     (case lobbyState st of
        None \<Rightarrow> st
      | Some l \<Rightarrow>
          (let newGameState = initializeGameState (lplayers l) now
           in st\<lparr>gameState := Some newGameState,
                 lobbyState := Some (l\<lparr>lplayers := players newGameState, lgameStarted := True\<rparr>)\<rparr>))"

section \<open>Binary64 arithmetic\<close>

text \<open>
  The value of a JavaScript arithmetic operation is the exact result rounded to the
  nearest binary64 number, ties to the even significand. \<open>roundEven\<close> rounds a rational
  to the nearest integer, ties to even; \<open>ilog2\<close> is the exponent of the binade of a
  positive rational, \<open>\<lfloor>log\<^sub>2 x\<rfloor>\<close>; \<open>binary64\<close> rounds to a multiple of the
  unit in the last place, which is \<open>2\<^sup>e\<^sup>-\<^sup>5\<^sup>2\<close> in the binade \<open>e\<close> and \<open>2\<^sup>-\<^sup>1\<^sup>0\<^sup>7\<^sup>4\<close> in the
  subnormal range. Results of magnitude \<open>2\<^sup>1\<^sup>0\<^sup>2\<^sup>4\<close> or more, which binary64 turns into
  \<open>Infinity\<close>, are out of the reach of the ticker and are not modelled.
\<close>

definition roundEven :: "rat \<Rightarrow> int" where
  "roundEven q =
     (let n = \<lfloor>q\<rfloor>; r = q - of_int n
      in if r < 1 / 2 then n
         else if 1 / 2 < r then n + 1
         else if even n then n else n + 1)"

definition ilog2 :: "rat \<Rightarrow> int" where
  "ilog2 x = (if 1 \<le> x then bitlen \<lfloor>x\<rfloor> - 1 else - bitlen (\<lceil>1 / x\<rceil> - 1))"

definition binary64 :: "rat \<Rightarrow> rat" where
  "binary64 x =
     (if x = 0 then 0
      else let e = max (ilog2 \<bar>x\<bar>) (- 1022);
               ulp = 2 powi (e - 52)
           in of_int (roundEven (x / ulp)) * ulp)"

text \<open>The JavaScript operators \<open>+\<close> and \<open>/\<close> on numbers.\<close>

definition fadd :: "rat \<Rightarrow> rat \<Rightarrow> rat" where
  "fadd a b = binary64 (a + b)"

definition fdiv :: "rat \<Rightarrow> rat \<Rightarrow> rat" where
  "fdiv a b = binary64 (a / b)"

section \<open>The resource ticker\<close>

text \<open>
  Lines 419-428: the scan for the highest score, in the order of \<open>Object.entries(scores)\<close>,
  which is the roster's order.
\<close>

fun findWinner :: "(string \<times> nat) list \<Rightarrow> nat \<Rightarrow> string option \<Rightarrow> string option" where
  "findWinner [] maxScore w = w"
| "findWinner ((playerId, score) # rest) maxScore w =
     (if score > maxScore then findWinner rest score (Some playerId)
      else findWinner rest maxScore w)"

text \<open>\<open>gameState.gameEndTime && currentTime >= gameState.gameEndTime\<close>: \<open>null\<close> and \<open>0\<close> are falsy.\<close>

definition timeIsUp :: "GameState \<Rightarrow> int \<Rightarrow> bool" where
  "timeIsUp gs currentTime =
     (case gameEndTime gs of
        None \<Rightarrow> False
      | Some t \<Rightarrow> t \<noteq> 0 \<and> currentTime \<ge> t)"

text \<open>
  \<open>updateResources\<close> (lines 405-462) at the time \<open>currentTime\<close> that \<open>Date.now()\<close> returns.
  Both loops run over \<open>Object.keys(players)\<close> and read or rewrite \<open>players[playerId]\<close>;
  the keys of an object are distinct, so each loop is a map over the entries of the roster.
\<close>

definition updateResources :: "GameState \<Rightarrow> int \<Rightarrow> GameState" where
  "updateResources gs currentTime =
     (if timeIsUp gs currentTime
      then (let scores = map (\<lambda>(playerId, p). (playerId, length (tiles p))) (players gs)
            in gs\<lparr>gameOver := True, winner := findWinner scores 0 None\<rparr>)
      else gs\<lparr>players :=
                map (\<lambda>(playerId, player).
                       if length (tiles player) = 0 then (playerId, player)
                       else (playerId,
                             player\<lparr>gold := fadd (gold player) (fdiv (goldRate player) 10),
                                    units := fadd (units player) (fdiv (unitRate player) 10)\<rparr>))
                    (players gs)\<rparr>)"

text \<open>
  The effect of lines 402-467: the interval exists only while a game state is present
  and not over; each firing at time \<open>currentTime\<close> stores \<open>updateResources\<close> of it.
\<close>

definition tick :: "Store \<Rightarrow> int \<Rightarrow> Store" where
  "tick st currentTime =
     (case gameState st of
        None \<Rightarrow> st
      | Some gs \<Rightarrow>
          if gameOver gs then st
          else st\<lparr>gameState := Some (updateResources gs currentTime)\<rparr>)"

section \<open>Notions of the specification\<close>

text \<open>
  Two coordinates are 4-directionally adjacent when they lie in the same row or the same
  column at distance 1, that is, at Manhattan distance 1.
\<close>

definition neighbours :: "int \<times> int \<Rightarrow> int \<times> int \<Rightarrow> bool" where
  "neighbours a b = (\<bar>fst a - fst b\<bar> + \<bar>snd a - snd b\<bar> = 1)"

text \<open>The coordinates of the grid whose tile is owned by player \<open>k\<close>.\<close>

definition ownedCoords :: "Tile list list \<Rightarrow> string \<Rightarrow> (int \<times> int) set" where
  "ownedCoords g k = {(x, y). inRows g y \<and> inRow g x y \<and> ownerId (g ! nat y ! nat x) = Some k}"

text \<open>The cross-entity invariant: a player's \<open>tiles\<close>, as a set, are the tiles the grid gives them.\<close>

definition tilesInv :: "GameState \<Rightarrow> bool" where
  "tilesInv gs = (\<forall>(k, p) \<in> set (players gs). set (tiles p) = ownedCoords (grid gs) (pid p))"

text \<open>Every record of the roster is stored under its own id.\<close>

definition keysMatchIds :: "roster \<Rightarrow> bool" where
  "keysMatchIds ps = (\<forall>(k, p) \<in> set ps. pid p = k)"

text \<open>
  A roster as the lobby hands it to \<open>startGame\<close>: one record per key, each under its own
  id, and no tiles on the records that get no starting position.
\<close>

definition lobbyRoster :: "roster \<Rightarrow> bool" where
  "lobbyRoster ps =
     (distinct (map fst ps) \<and> keysMatchIds ps \<and> (\<forall>(k, p) \<in> set (drop 3 ps). tiles p = []))"

text \<open>
  One operation of the engine on a game state, by any participant: a claim, a build or
  a demolition that returns (with true or false), or a firing of the ticker.
\<close>

inductive engineStep :: "GameState \<Rightarrow> GameState \<Rightarrow> bool" where
  claim: "gameState st = Some gs \<Longrightarrow> claimTile st x y goldCost unitCost = Inr (b, st') \<Longrightarrow>
          gameState st' = Some gs' \<Longrightarrow> engineStep gs gs'"
| build: "gameState st = Some gs \<Longrightarrow> buildConstruct st x y constructType = Inr (b, st') \<Longrightarrow>
          gameState st' = Some gs' \<Longrightarrow> engineStep gs gs'"
| demolish: "gameState st = Some gs \<Longrightarrow> demolishConstruct st x y = Inr (b, st') \<Longrightarrow>
          gameState st' = Some gs' \<Longrightarrow> engineStep gs gs'"
| ticker: "gameState st = Some gs \<Longrightarrow> gameState (tick st now) = Some gs' \<Longrightarrow> engineStep gs gs'"

text \<open>The snapshots a match can show: the one \<open>startGame\<close> stores, and those after any steps.\<close>

inductive reachable :: "GameState \<Rightarrow> bool" where
  started: "lobbyState st = Some l \<Longrightarrow> lobbyRoster (lplayers l) \<Longrightarrow>
            gameState (startGame st now) = Some gs \<Longrightarrow> reachable gs"
| step: "reachable gs \<Longrightarrow> engineStep gs gs' \<Longrightarrow> reachable gs'"

text \<open>The record of player \<open>k\<close> in the game state of a store.\<close>

definition playerOf :: "Store \<Rightarrow> string \<Rightarrow> Player option" where
  "playerOf st k = (case gameState st of None \<Rightarrow> None | Some gs \<Rightarrow> map_of (players gs) k)"

text \<open>The ticker firing at the successive times of a list.\<close>

definition runTicks :: "Store \<Rightarrow> int list \<Rightarrow> Store" where
  "runTicks st firings = foldl tick st firings"

section \<open>Example states\<close>

text \<open>The player record that \<open>createLobby\<close> and \<open>joinLobby\<close> build (lines 126-137, 237-248).\<close>

definition newPlayer :: "string \<Rightarrow> string \<Rightarrow> Faction \<Rightarrow> string \<Rightarrow> Player" where
  "newPlayer k nm f c =
     \<lparr>pid = k, pname = nm, isReady = False, color = c, faction = f,
      gold = 0, units = 0, goldRate = 1, unitRate = 0, tiles = []\<rparr>"

definition playerA :: Player where
  "playerA = newPlayer ''A'' ''Ann'' HUMANS ''#3498db''"

definition playerB :: Player where
  "playerB = newPlayer ''B'' ''Bob'' ALIENS ''#2ecc71''"

text \<open>The lobby of a running game with the given roster.\<close>

definition lobbyOf :: "roster \<Rightarrow> LobbyState" where
  "lobbyOf ps = \<lparr>lobbyId = ''abc123'', lplayers = ps, host = ''A'', lgameStarted = True\<rparr>"

text \<open>A game in which \<open>A\<close> is the only owner, of tile (3,3), and holds 10 gold.\<close>

definition soloGame :: GameState where
  "soloGame =
     \<lparr>gameStarted = True, currentTurn = Some ''A'',
      grid = updateTile emptyGrid 3 3 (\<lambda>t. t\<lparr>ownerId := Some ''A'', tcolor := Some ''#3498db''\<rparr>),
      players = [(''A'', playerA\<lparr>gold := 10, tiles := [(3, 3)]\<rparr>)],
      gameEndTime = Some 301000, gameOver = False, winner = None\<rparr>"

definition soloStore :: Store where
  "soloStore = \<lparr>myId = ''A'', lobbyState = Some (lobbyOf (players soloGame)), gameState = Some soloGame\<rparr>"

text \<open>
  The contested example of the specification: \<open>B\<close> owns only (5,5), with a \<open>DEFENSE\<close>
  construct and bonus 10; \<open>A\<close> owns (4,5) and holds 12 gold and 16 units. \<open>duelAfter\<close> is
  the state after \<open>A\<close> has claimed (5,5) for 12 gold and 15 units.
\<close>

definition duelGame :: GameState where
  "duelGame =
     \<lparr>gameStarted = True, currentTurn = Some ''A'',
      grid = updateTile
               (updateTile emptyGrid 4 5 (\<lambda>t. t\<lparr>ownerId := Some ''A'', tcolor := Some ''#3498db''\<rparr>))
               5 5 (\<lambda>t. t\<lparr>ownerId := Some ''B'', tcolor := Some ''#2ecc71'',
                         construct := Some \<lparr>ctype = DEFENSE, cownerId = Some ''B''\<rparr>,
                         defenseBonus := 10\<rparr>),
      players = [(''A'', playerA\<lparr>gold := 12, units := 16, tiles := [(4, 5)]\<rparr>),
                 (''B'', playerB\<lparr>unitRate := 1, tiles := [(5, 5)]\<rparr>)],
      gameEndTime = Some 301000, gameOver = False, winner = None\<rparr>"

definition duelStore :: Store where
  "duelStore = \<lparr>myId = ''A'', lobbyState = Some (lobbyOf (players duelGame)), gameState = Some duelGame\<rparr>"

definition duelAfter :: GameState where
  "duelAfter =
     duelGame
       \<lparr>grid := updateTile (grid duelGame) 5 5
                 (\<lambda>t. t\<lparr>ownerId := Some ''A'', tcolor := Some ''#3498db''\<rparr>),
        players := [(''A'', playerA\<lparr>gold := 0, units := 1, tiles := [(4, 5), (5, 5)]\<rparr>),
                    (''B'', playerB\<lparr>unitRate := 1, tiles := []\<rparr>)],
        gameOver := True, winner := Some ''A''\<rparr>"



text \<open>A lobby of two players and the game the host starts from it at time 1000.\<close>

definition exampleRoster :: roster where
  "exampleRoster = [(''A'', playerA), (''B'', playerB)]"

definition lobbyAB :: LobbyState where
  "lobbyAB = \<lparr>lobbyId = ''abc123'', lplayers = exampleRoster, host = ''A'', lgameStarted = False\<rparr>"

definition startedGame :: GameState where
  "startedGame = initializeGameState exampleRoster 1000"

definition startedStore :: Store where
  "startedStore = startGame \<lparr>myId = ''A'', lobbyState = Some lobbyAB, gameState = None\<rparr> 1000"

text \<open>The store of \<open>soloGame\<close> with 30 gold for \<open>A\<close>, enough for any construct.\<close>

definition buildStore :: Store where
  "buildStore =
     soloStore\<lparr>gameState :=
        Some (soloGame\<lparr>players := [(''A'', playerA\<lparr>gold := 30, tiles := [(3, 3)]\<rparr>)]\<rparr>)\<rparr>"

section \<open>Basic facts about the roster and the grid\<close>

lemma map_fst_updatePlayer: "map fst (updatePlayer k f ps) = map fst ps"
  by (induction ps) (auto simp: updatePlayer_def)

lemma length_updatePlayer: "length (updatePlayer k f ps) = length ps"
  by (simp add: updatePlayer_def)

lemma map_of_updatePlayer:
  "map_of (updatePlayer k f ps) k' = (if k' = k then map_option f (map_of ps k) else map_of ps k')"
  by (induction ps) (auto simp: updatePlayer_def)

lemma isAdjacent_iff: "isAdjacent ts x y \<longleftrightarrow> (\<exists>t \<in> set ts. neighbours t (x, y))"
  unfolding isAdjacent_def neighbours_def list_ex_iff
  by (intro bex_cong refl) auto

lemma onStore_reject:
  "gameState st = Some gs \<Longrightarrow> body (myId st) gs = Inr None \<Longrightarrow> onStore st body = Inr (False, st)"
  by (simp add: onStore_def split: option.splits)

lemma inRows_updateTile [simp]: "inRows (updateTile g x y f) y' = inRows g y'"
  by (simp add: inRows_def updateTile_def)

lemma inRow_updateTile [simp]: "inRow (updateTile g x y f) x' y' = inRow g x' y'"
  by (cases "nat y < length g"; cases "nat y' = nat y")
     (simp_all add: inRow_def updateTile_def list_update_beyond)

lemma nth_updateTile:
  assumes "inRows g y" "inRow g x y" "inRows g y'" "inRow g x' y'"
  shows "updateTile g x y f ! nat y' ! nat x' =
           (if x' = x \<and> y' = y then f (g ! nat y ! nat x) else g ! nat y' ! nat x')"
proof (cases "y' = y")
  case True
  then show ?thesis using assms
    by (auto simp: inRows_def inRow_def updateTile_def nth_list_update)
next
  case False
  then have "nat y' \<noteq> nat y" using assms by (auto simp: inRows_def)
  then show ?thesis using False by (simp add: updateTile_def)
qed

lemma ownedCoords_claim:
  assumes "inRows g y" "inRow g x y" "\<And>t. ownerId (f t) = Some me"
  shows "ownedCoords (updateTile g x y f) k =
           (if k = me then insert (x, y) (ownedCoords g k) else ownedCoords g k - {(x, y)})"
  using assms by (auto simp: ownedCoords_def nth_updateTile split: if_splits)

lemma ownedCoords_same_owner:
  assumes "inRows g y" "inRow g x y" "\<And>t. ownerId (f t) = ownerId t"
  shows "ownedCoords (updateTile g x y f) k = ownedCoords g k"
  using assms by (auto simp: ownedCoords_def nth_updateTile split: if_splits)

lemma in_set_updatePlayer:
  "(k, p') \<in> set (updatePlayer j f ps) \<longleftrightarrow>
     (\<exists>p. (k, p) \<in> set ps \<and> p' = (if k = j then f p else p))"
  by (induction ps) (auto simp: updatePlayer_def split: if_splits)

lemma length_emptyGrid [simp]: "length emptyGrid = 24"
  by (simp add: emptyGrid_def GRID_SIZE_def)

lemma inRows_emptyGrid: "inRows emptyGrid y \<longleftrightarrow> 0 \<le> y \<and> y < 24"
  by (simp add: inRows_def)

lemma inRow_emptyGrid: "inRows emptyGrid y \<Longrightarrow> inRow emptyGrid x y \<longleftrightarrow> 0 \<le> x \<and> x < 24"
proof -
  assume "inRows emptyGrid y"
  then have "nat y < 24" by (auto simp: inRows_def)
  then show ?thesis by (simp add: inRow_def emptyGrid_def GRID_SIZE_def)
qed

lemma nth_emptyGrid:
  "0 \<le> y \<Longrightarrow> y < 24 \<Longrightarrow> 0 \<le> x \<Longrightarrow> x < 24 \<Longrightarrow> emptyGrid ! nat y ! nat x = emptyTile x y"
proof -
  assume "0 \<le> y" "y < 24" "0 \<le> x" "x < 24"
  then have "nat y < 24" "nat x < 24" by auto
  then show ?thesis using \<open>0 \<le> y\<close> \<open>0 \<le> x\<close> by (simp add: emptyGrid_def GRID_SIZE_def)
qed

lemma ownedCoords_emptyGrid [simp]: "ownedCoords emptyGrid k = {}"
  by (auto simp: ownedCoords_def inRows_emptyGrid inRow_emptyGrid nth_emptyGrid emptyTile_def)

lemma length_updateTile [simp]: "length (updateTile g x y f) = length g"
  by (simp add: updateTile_def)

lemma length_nth_updateTile [simp]: "length (updateTile g x y f ! j) = length (g ! j)"
  by (cases "nat y < length g"; cases "j = nat y")
     (simp_all add: updateTile_def list_update_beyond)

lemma nth_updateTile_nat:
  assumes "inRows g y" "inRow g x y" "j < length g" "i < length (g ! j)"
  shows "updateTile g x y f ! j ! i = (if int i = x \<and> int j = y then f (g ! j ! i) else g ! j ! i)"
  using nth_updateTile[OF assms(1,2), of "int j" "int i" f] assms(3,4)
  by (auto simp: inRows_def inRow_def)

lemma length_nth_emptyGrid [simp]: "j < 24 \<Longrightarrow> length (emptyGrid ! j) = 24"
  by (simp add: emptyGrid_def GRID_SIZE_def)

lemma nth_emptyGrid_nat: "j < 24 \<Longrightarrow> i < 24 \<Longrightarrow> emptyGrid ! j ! i = emptyTile (int i) (int j)"
  using nth_emptyGrid[of "int j" "int i"] by simp

lemmas grid_simps = inRows_emptyGrid inRow_emptyGrid nth_emptyGrid_nat nth_updateTile_nat

section \<open>The body of claimTile in closed form\<close>

lemma updatePlayer_as_map:
  "updatePlayer k f ps = map (\<lambda>(k', p). (k', if k' = k then f p else p)) ps"
  by (simp add: updatePlayer_def case_prod_unfold)

lemma map_of_keyed_map:
  "map_of (map (\<lambda>(k, p). (k, F k p)) ps) k = map_option (F k) (map_of ps k)"
  by (induction ps) auto

lemma in_set_keyed_map:
  "(k, p') \<in> set (map (\<lambda>(k, p). (k, F k p)) ps) \<longleftrightarrow> (\<exists>p. (k, p) \<in> set ps \<and> p' = F k p)"
  by (induction ps) auto

lemma map_fst_keyed_map: "map fst (map (\<lambda>(k, p). (k, F k p)) ps) = map fst ps"
  by (induction ps) auto

lemma claim_roster:
  assumes "removeFromPreviousOwner me tile x y (spendResources me tile gc uc ps) = Inr ps3"
  shows "updatePlayer me (\<lambda>p. p\<lparr>tiles := tiles p @ [(x, y)]\<rparr>) ps3 =
         map (\<lambda>(k, p). (k,
               if k = me
               then p\<lparr>gold := gold p - gc,
                      units := (if contested me tile then units p - uc else units p),
                      tiles := tiles p @ [(x, y)]\<rparr>
               else if ownerId tile = Some k
               then p\<lparr>tiles := filter (\<lambda>t. \<not> (fst t = x \<and> snd t = y)) (tiles p)\<rparr>
               else p)) ps"
  using assms
  by (auto simp: removeFromPreviousOwner_def spendResources_def updatePlayer_as_map contested_def
           split: option.splits if_splits)


lemma map_fst_spendResources: "map fst (spendResources me tile gc uc ps) = map fst ps"
  by (simp add: spendResources_def Let_def map_fst_updatePlayer)

lemma removeFromPreviousOwner_InrD:
  assumes "removeFromPreviousOwner me tile x y (spendResources me tile gc uc ps) = Inr ps3"
    and "contested me tile"
  shows "\<exists>prev \<in> fst ` set ps. ownerId tile = Some prev"
proof -
  from assms(2) obtain prev where p: "ownerId tile = Some prev" "prev \<noteq> me"
    by (auto simp: contested_def)
  with assms(1) have "map_of (spendResources me tile gc uc ps) prev \<noteq> None"
    by (auto simp: removeFromPreviousOwner_def split: option.splits)
  then have "prev \<in> set (map fst (spendResources me tile gc uc ps))"
    by (simp add: map_of_eq_None_iff)
  then have "prev \<in> fst ` set ps"
    by (simp add: map_fst_spendResources)
  with p show ?thesis by blast
qed

lemma onStore_accept:
  "gameState st = Some gs \<Longrightarrow> lobbyState st = Some l \<Longrightarrow> body (myId st) gs = Inr (Some gs') \<Longrightarrow>
   onStore st body = Inr (True, st\<lparr>gameState := Some gs'\<rparr>)"
  by (simp add: onStore_def)

lemma onStore_TrueD:
  assumes "onStore st body = Inr (True, st')"
  shows "\<exists>gs gs'. gameState st = Some gs \<and> lobbyState st \<noteq> None \<and>
           body (myId st) gs = Inr (Some gs') \<and> st' = st\<lparr>gameState := Some gs'\<rparr>"
  using assms by (auto simp: onStore_def split: option.splits sum.splits)

lemma players_checkElimination [simp]: "players (checkElimination gs) = players gs"
  by (simp add: checkElimination_def Let_def)

lemma grid_checkElimination [simp]: "grid (checkElimination gs) = grid gs"
  by (simp add: checkElimination_def Let_def)

text \<open>What an accepted claim computes, in closed form.\<close>

lemma claimTileOn_SomeD:
  assumes "claimTileOn me gs x y gc uc = Inr (Some gs')"
  shows "\<exists>actor. inRows (grid gs) y \<and> inRow (grid gs) x y \<and>
           map_of (players gs) me = Some actor \<and> gc \<le> gold actor \<and>
           (contested me (grid gs ! nat y ! nat x) \<longrightarrow> uc \<le> units actor) \<and>
           isAdjacent (tiles actor) x y \<and>
           (contested me (grid gs ! nat y ! nat x) \<longrightarrow>
              (\<exists>prev \<in> fst ` set (players gs). ownerId (grid gs ! nat y ! nat x) = Some prev)) \<and>
           gs' = checkElimination
                  (gs\<lparr>grid := updateTile (grid gs) x y
                                (\<lambda>t. t\<lparr>ownerId := Some me, tcolor := Some (color actor)\<rparr>),
                      players :=
                        map (\<lambda>(k, p). (k,
                               if k = me
                               then p\<lparr>gold := gold p - gc,
                                      units := (if contested me (grid gs ! nat y ! nat x)
                                                then units p - uc else units p),
                                      tiles := tiles p @ [(x, y)]\<rparr>
                               else if ownerId (grid gs ! nat y ! nat x) = Some k
                               then p\<lparr>tiles := filter (\<lambda>t. \<not> (fst t = x \<and> snd t = y)) (tiles p)\<rparr>
                               else p)) (players gs)\<rparr>)"
proof -
  from assms obtain actor where a: "inRows (grid gs) y" "inRow (grid gs) x y"
      "map_of (players gs) me = Some actor" "gc \<le> gold actor"
      "contested me (grid gs ! nat y ! nat x) \<longrightarrow> uc \<le> units actor"
      "isAdjacent (tiles actor) x y"
      and ap: "claimApply me gs x y gc uc (grid gs ! nat y ! nat x) actor = Inr gs'"
    by (auto simp: claimTileOn_def Let_def split: if_splits option.splits sum.splits)
  from ap obtain ps3 where r: "removeFromPreviousOwner me (grid gs ! nat y ! nat x) x y
        (spendResources me (grid gs ! nat y ! nat x) gc uc (players gs)) = Inr ps3"
      and g: "gs' = checkElimination
                  (gs\<lparr>grid := updateTile (grid gs) x y
                                (\<lambda>t. t\<lparr>ownerId := Some me, tcolor := Some (color actor)\<rparr>),
                      players := updatePlayer me (\<lambda>p. p\<lparr>tiles := tiles p @ [(x, y)]\<rparr>) ps3\<rparr>)"
    by (auto simp: claimApply_def split: sum.splits)
  have prev: "contested me (grid gs ! nat y ! nat x) \<longrightarrow>
              (\<exists>prev \<in> fst ` set (players gs). ownerId (grid gs ! nat y ! nat x) = Some prev)"
    using removeFromPreviousOwner_InrD[OF r] by blast
  show ?thesis
    using a prev g claim_roster[OF r] by auto
qed


section \<open>The contested example, evaluated\<close>

lemma duel_tile:
  "grid duelGame ! 5 ! 5 =
     \<lparr>tx = 5, ty = 5, ownerId = Some ''B'', tcolor = Some ''#2ecc71'',
      construct = Some \<lparr>ctype = DEFENSE, cownerId = Some ''B''\<rparr>, defenseBonus = 10\<rparr>"
  by (simp add: duelGame_def grid_simps emptyTile_def)

lemma duel_inGrid: "inRows (grid duelGame) 5" "inRow (grid duelGame) 5 5"
  by (simp_all add: duelGame_def grid_simps)

lemma duel_claim: "claimTileOn ''A'' duelGame 5 5 12 15 = Inr (Some duelAfter)"
proof -
  have p: "players duelGame = [(''A'', playerA\<lparr>gold := 12, units := 16, tiles := [(4, 5)]\<rparr>),
                 (''B'', playerB\<lparr>unitRate := 1, tiles := [(5, 5)]\<rparr>)]"
    by (simp add: duelGame_def)
  have c: "contested ''A'' (grid duelGame ! 5 ! 5)"
    by (simp add: duel_tile contested_def)
  show ?thesis
    using duel_inGrid c
    by (simp add: claimTileOn_def claimApply_def spendResources_def removeFromPreviousOwner_def
          checkElimination_def updatePlayer_def isAdjacent_def p duel_tile playerA_def playerB_def
          newPlayer_def duelAfter_def)
qed

section \<open>The elimination check\<close>

lemma filter_none: "(\<forall>(k, p) \<in> set ps. \<not> P p) \<Longrightarrow> filter P (map snd ps) = []"
  by (induction ps) auto

lemma filter_single:
  assumes "distinct (map fst ps)" "(k, p) \<in> set ps" "P p"
    and "\<forall>(k', p') \<in> set ps. P p' \<longrightarrow> k' = k"
  shows "filter P (map snd ps) = [p]"
  using assms
proof (induction ps)
  case Nil
  then show ?case by simp
next
  case (Cons a ps)
  obtain k0 p0 where a: "a = (k0, p0)" by (cases a)
  show ?case
  proof (cases "k0 = k")
    case True
    with Cons.prems a have "p0 = p" and notin: "k \<notin> fst ` set ps"
      by (auto simp: rev_image_eqI)
    have "\<forall>(k', p') \<in> set ps. \<not> P p'"
      using Cons.prems(4) notin by (force simp: image_iff)
    then have "filter P (map snd ps) = []" by (rule filter_none)
    with \<open>p0 = p\<close> a Cons.prems(3) show ?thesis by simp
  next
    case False
    with Cons.prems a have "\<not> P p0" "(k, p) \<in> set ps" by auto
    moreover have "filter P (map snd ps) = [p]"
      using Cons.IH Cons.prems \<open>(k, p) \<in> set ps\<close> by auto
    ultimately show ?thesis using a by simp
  qed
qed

lemma filter_two:
  assumes "(k, p) \<in> set ps" "(k', p') \<in> set ps" "k \<noteq> k'" "P p" "P p'"
  shows "2 \<le> length (filter P (map snd ps))"
proof -
  have "{(k, p), (k', p')} \<subseteq> set (filter (P \<circ> snd) ps)"
    using assms by auto
  then have "card {(k, p), (k', p')} \<le> card (set (filter (P \<circ> snd) ps))"
    by (intro card_mono) auto
  also have "\<dots> \<le> length (filter (P \<circ> snd) ps)"
    by (rule card_length)
  also have "\<dots> = length (filter P (map snd ps))"
    by (simp add: filter_map)
  finally show ?thesis using assms(3) by simp
qed

lemma checkElimination_single:
  assumes "distinct (map fst (players gs))" "(k, p) \<in> set (players gs)" "tiles p \<noteq> []"
    and "\<forall>(k', p') \<in> set (players gs). tiles p' \<noteq> [] \<longrightarrow> k' = k"
  shows "checkElimination gs = gs\<lparr>gameOver := True, winner := Some (pid p)\<rparr>"
proof -
  have "filter (\<lambda>p. 0 < length (tiles p)) (map snd (players gs)) = [p]"
    using assms by (intro filter_single[where k = k]) auto
  then show ?thesis by (simp add: checkElimination_def)
qed

lemma checkElimination_many:
  assumes "(k, p) \<in> set (players gs)" "(k', p') \<in> set (players gs)" "k \<noteq> k'"
    and "tiles p \<noteq> []" "tiles p' \<noteq> []"
  shows "checkElimination gs = gs"
proof -
  have "2 \<le> length (filter (\<lambda>p. 0 < length (tiles p)) (map snd (players gs)))"
    using assms by (intro filter_two[where k = k and k' = k' and p = p and p' = p']) auto
  then show ?thesis by (simp add: checkElimination_def)
qed

lemma duel_keys: "distinct (map fst (players duelGame))"
  by (simp add: duelGame_def)

lemma duel_claim_store:
  "claimTile duelStore 5 5 12 15 = Inr (True, duelStore\<lparr>gameState := Some duelAfter\<rparr>)"
  unfolding claimTile_def
  by (rule onStore_accept[where gs = duelGame]) (simp_all add: duelStore_def duel_claim)

section \<open>Building and demolishing\<close>

lemma buildConstructOn_accept:
  assumes "inRows (grid gs) y" "inRow (grid gs) x y"
    and "map_of (players gs) me = Some actor"
    and "ownerId (grid gs ! nat y ! nat x) = Some me"
    and "construct (grid gs ! nat y ! nat x) = None"
    and "constructCost T = Some cost" and "cost \<le> gold actor"
  shows "buildConstructOn me gs x y T = Inr (Some (buildApply me gs x y T cost))"
  using assms by (simp add: buildConstructOn_def Let_def)

lemma buildApply_tile:
  assumes "inRows (grid gs) y" "inRow (grid gs) x y" "T \<noteq> NONE"
  shows "grid (buildApply me gs x y T cost) ! nat y ! nat x =
           (grid gs ! nat y ! nat x)
             \<lparr>construct := Some \<lparr>ctype = T, cownerId = Some me\<rparr>,
              defenseBonus := (if T = DEFENSE then 10 else defenseBonus (grid gs ! nat y ! nat x))\<rparr>"
  using assms by (cases T) (simp_all add: buildApply_def Let_def nth_updateTile)

lemma buildApply_inGrid [simp]:
  "inRows (grid (buildApply me gs x y T cost)) y' = inRows (grid gs) y'"
  "inRow (grid (buildApply me gs x y T cost)) x' y' = inRow (grid gs) x' y'"
  by (simp_all add: buildApply_def Let_def)

lemma buildApply_actor:
  assumes "map_of (players gs) me = Some actor"
  shows "map_of (players (buildApply me gs x y T cost)) me =
           Some (actor\<lparr>gold := gold actor - cost,
                       goldRate := (if T = GOLD then goldRate actor + 1 else goldRate actor),
                       unitRate := (if T = UNIT then unitRate actor + 1 else unitRate actor)\<rparr>)"
  using assms by (cases T) (simp_all add: buildApply_def Let_def map_of_updatePlayer)

lemma demolishConstructOn_accept:
  assumes "inRows (grid gs) y" "inRow (grid gs) x y"
    and "ownerId (grid gs ! nat y ! nat x) = Some me"
    and "construct (grid gs ! nat y ! nat x) = Some c"
    and "demolishApply me gs x y (ctype c) = Inr gs'"
  shows "demolishConstructOn me gs x y = Inr (Some gs')"
  using assms by (simp add: demolishConstructOn_def Let_def)

lemma demolishApply_ok:
  assumes "map_of (players gs) me = Some a"
  shows "\<exists>gs'. demolishApply me gs x y T = Inr gs' \<and>
           grid gs' = updateTile
                        (if T = DEFENSE then updateTile (grid gs) x y (\<lambda>t. t\<lparr>defenseBonus := 0\<rparr>)
                         else grid gs)
                        x y (\<lambda>t. t\<lparr>construct := None\<rparr>) \<and>
           map_of (players gs') me =
             Some (a\<lparr>goldRate := (if T = GOLD then goldRate a - 1 else goldRate a),
                     unitRate := (if T = UNIT then unitRate a - 1 else unitRate a)\<rparr>)"
  using assms by (cases T) (simp_all add: demolishApply_def Let_def map_of_updatePlayer)

section \<open>Binary64 rounding\<close>

text \<open>
  The rounding is to a nearest integer, the exponent is that of the binade, and the
  result is within half a unit in the last place of the exact value.
\<close>

lemma roundEven_near: "\<bar>of_int (roundEven q) - q\<bar> \<le> 1 / 2"
proof -
  have "of_int \<lfloor>q\<rfloor> \<le> q" "q < of_int \<lfloor>q\<rfloor> + 1"
    by linarith+
  then show ?thesis
    by (auto simp: roundEven_def Let_def abs_if; linarith)
qed

lemma roundEven_tie: "q - of_int \<lfloor>q\<rfloor> = 1 / 2 \<Longrightarrow> even (roundEven q)"
  by (simp add: roundEven_def Let_def)

lemma roundEven_of_int [simp]: "roundEven (of_int n) = n"
  by (simp add: roundEven_def)

lemma ilog2_bounds:
  assumes "0 < x"
  shows "2 powi ilog2 x \<le> x \<and> x < 2 powi (ilog2 x + 1)"
proof (cases "1 \<le> x")
  case True
  let ?n = "\<lfloor>x\<rfloor>"
  have n: "0 < ?n" using True by simp
  then have b1: "1 \<le> bitlen ?n" by (auto simp: bitlen_alt_def)
  from bitlen_bounds[OF n] have lo: "2 ^ nat (bitlen ?n - 1) \<le> ?n" and hi: "?n < 2 ^ nat (bitlen ?n)"
    by simp_all
  have "(2::rat) powi (bitlen ?n - 1) = 2 ^ nat (bitlen ?n - 1)"
    using b1 by (simp add: power_int_def)
  also have "\<dots> = of_int (2 ^ nat (bitlen ?n - 1))" by simp
  also have "\<dots> \<le> of_int ?n" using lo by (simp only: of_int_le_iff)
  also have "\<dots> \<le> x" by simp
  finally have l: "(2::rat) powi (bitlen ?n - 1) \<le> x" .
  have "?n + 1 \<le> 2 ^ nat (bitlen ?n)" using hi by simp
  then have "of_int (?n + 1) \<le> (of_int (2 ^ nat (bitlen ?n)) :: rat)"
    by (simp only: of_int_le_iff)
  moreover have "x < of_int (?n + 1)" by (simp; linarith?)
  ultimately have "x < (2::rat) ^ nat (bitlen ?n)" by simp
  moreover have "(2::rat) powi (bitlen ?n) = 2 ^ nat (bitlen ?n)"
    using b1 by (simp add: power_int_def)
  ultimately have "x < 2 powi (bitlen ?n)" by simp
  with l True show ?thesis by (simp add: ilog2_def)
next
  case False
  let ?m = "\<lceil>1 / x\<rceil>"
  let ?b = "bitlen (?m - 1)"
  from False assms have y: "1 < 1 / x" by simp
  then have m: "0 < ?m - 1" by (simp; linarith?)
  then have b1: "1 \<le> ?b" by (auto simp: bitlen_alt_def)
  from bitlen_bounds[OF m] have lo: "2 ^ nat (?b - 1) \<le> ?m - 1" and hi: "?m - 1 < 2 ^ nat ?b"
    by simp_all
  have p: "(2::rat) powi ?b = 2 ^ nat ?b" "(2::rat) powi (?b - 1) = 2 ^ nat (?b - 1)"
    using b1 by (simp_all add: power_int_def)
  have "?m \<le> 2 ^ nat ?b" using hi by simp
  then have mb: "(of_int ?m :: rat) \<le> of_int (2 ^ nat ?b)" by (simp only: of_int_le_iff)
  have "1 / x \<le> of_int ?m" by (rule le_of_int_ceiling)
  also note mb
  also have "(of_int (2 ^ nat ?b) :: rat) = 2 powi ?b" by (simp add: p)
  finally have up: "1 / x \<le> 2 powi ?b" .
  have "(2::rat) powi (?b - 1) = of_int (2 ^ nat (?b - 1))" by (simp add: p)
  also have "\<dots> \<le> of_int (?m - 1)"
    using lo by (simp only: of_int_le_iff)
  also have "\<dots> < 1 / x" by (simp; linarith?)
  finally have dn: "2 powi (?b - 1) < 1 / x" .
  have pos: "(0::rat) < 2 powi ?b" "(0::rat) < 2 powi (?b - 1)" by simp_all
  have "2 powi (- ?b) \<le> x"
  proof -
    have "1 \<le> x * 2 powi ?b" using up assms by (simp add: field_simps)
    then show ?thesis using pos(1) by (simp add: power_int_minus field_simps)
  qed
  moreover have "x < 2 powi (- ?b + 1)"
  proof -
    have lt: "x * 2 powi (?b - 1) < 1" using dn assms by (simp add: field_simps)
    have eq: "2 powi (- ?b + 1) * 2 powi (?b - 1) = (1::rat)"
      using power_int_add[of "2::rat" "- ?b + 1" "?b - 1"] by simp
    from lt have "x * 2 powi (?b - 1) < 2 powi (- ?b + 1) * 2 powi (?b - 1)"
      by (simp only: eq)
    then show ?thesis using pos(2) by (simp only: mult_less_cancel_right_pos)
  qed
  ultimately show ?thesis using False by (simp add: ilog2_def)
qed

lemma binary64_error:
  assumes "x \<noteq> 0"
  shows "\<bar>binary64 x - x\<bar> \<le> 2 powi (max (ilog2 \<bar>x\<bar>) (- 1022) - 53)"
proof -
  let ?e = "max (ilog2 \<bar>x\<bar>) (- 1022)"
  let ?ulp = "(2::rat) powi (?e - 52)"
  have pos: "0 < ?ulp" by simp
  have "binary64 x - x = (of_int (roundEven (x / ?ulp)) - x / ?ulp) * ?ulp"
    using assms pos by (simp add: binary64_def Let_def field_simps)
  then have "\<bar>binary64 x - x\<bar> = \<bar>of_int (roundEven (x / ?ulp)) - x / ?ulp\<bar> * ?ulp"
    using pos by (simp add: abs_mult)
  also have "\<dots> \<le> 1 / 2 * ?ulp"
    using roundEven_near[of "x / ?ulp"] pos by (intro mult_right_mono) simp_all
  also have "\<dots> = 2 powi (?e - 53)"
    using power_int_add[of "2::rat" "?e - 53" 1] by simp
  finally show ?thesis .
qed

text \<open>
  The quotient \<open>1 / 10\<close> and the ten sums that the ticker forms from 0 at rate 1:
  0.1, 0.2, 0.30000000000000004, 0.4, 0.5, 0.6, 0.7, 0.7999999999999999,
  0.8999999999999999, 0.9999999999999999.
\<close>

lemma tenth: "fdiv 1 10 = 3602879701896397 / 36028797018963968"
  by code_simp

lemma accrue1: "fadd (0) (3602879701896397 / 36028797018963968) = 3602879701896397 / 36028797018963968"
  by code_simp

lemma accrue2: "fadd (3602879701896397 / 36028797018963968) (3602879701896397 / 36028797018963968) = 3602879701896397 / 18014398509481984"
  by code_simp

lemma accrue3: "fadd (3602879701896397 / 18014398509481984) (3602879701896397 / 36028797018963968) = 1351079888211149 / 4503599627370496"
  by code_simp

lemma accrue4: "fadd (1351079888211149 / 4503599627370496) (3602879701896397 / 36028797018963968) = 3602879701896397 / 9007199254740992"
  by code_simp

lemma accrue5: "fadd (3602879701896397 / 9007199254740992) (3602879701896397 / 36028797018963968) = 1 / 2"
  by code_simp

lemma accrue6: "fadd (1 / 2) (3602879701896397 / 36028797018963968) = 5404319552844595 / 9007199254740992"
  by code_simp

lemma accrue7: "fadd (5404319552844595 / 9007199254740992) (3602879701896397 / 36028797018963968) = 3152519739159347 / 4503599627370496"
  by code_simp

lemma accrue8: "fadd (3152519739159347 / 4503599627370496) (3602879701896397 / 36028797018963968) = 7205759403792793 / 9007199254740992"
  by code_simp

lemma accrue9: "fadd (7205759403792793 / 9007199254740992) (3602879701896397 / 36028797018963968) = 2026619832316723 / 2251799813685248"
  by code_simp

lemma accrue10: "fadd (2026619832316723 / 2251799813685248) (3602879701896397 / 36028797018963968) = 9007199254740991 / 9007199254740992"
  by code_simp

lemmas accrue_steps = tenth accrue1 accrue2 accrue3 accrue4 accrue5 accrue6 accrue7 accrue8 accrue9 accrue10

section \<open>The ticker while the game runs\<close>

lemma updateResources_running:
  assumes "\<not> timeIsUp gs now"
  shows "updateResources gs now =
           gs\<lparr>players := map (\<lambda>(k, p). (k,
                  if tiles p = [] then p
                  else p\<lparr>gold := fadd (gold p) (fdiv (goldRate p) 10),
                         units := fadd (units p) (fdiv (unitRate p) 10)\<rparr>))
                (players gs)\<rparr>"
proof -
  have "map (\<lambda>(playerId, player).
                       if length (tiles player) = 0 then (playerId, player)
                       else (playerId,
                             player\<lparr>gold := fadd (gold player) (fdiv (goldRate player) 10),
                                    units := fadd (units player) (fdiv (unitRate player) 10)\<rparr>))
            (players gs) =
        map (\<lambda>(k, p). (k,
                  if tiles p = [] then p
                  else p\<lparr>gold := fadd (gold p) (fdiv (goldRate p) 10),
                         units := fadd (units p) (fdiv (unitRate p) 10)\<rparr>))
            (players gs)"
    by (rule map_cong) auto
  then show ?thesis using assms by (simp add: updateResources_def)
qed

lemma tick_running:
  assumes "gameState st = Some gs" "\<not> gameOver gs"
  shows "tick st now = st\<lparr>gameState := Some (updateResources gs now)\<rparr>"
  using assms by (simp add: tick_def)

lemma timeIsUp_cong: "gameEndTime gs' = gameEndTime gs \<Longrightarrow> timeIsUp gs' t = timeIsUp gs t"
  by (simp add: timeIsUp_def)

lemma runTicks_accrual:
  assumes "gameState st = Some gs" "\<not> gameOver gs" "\<forall>t \<in> set firings. \<not> timeIsUp gs t"
    and "map_of (players gs) k = Some p"
  shows "\<exists>gs'. gameState (runTicks st firings) = Some gs' \<and>
           map_of (players gs') k =
             Some (if tiles p = [] then p
                   else p\<lparr>gold := ((\<lambda>g. fadd g (fdiv (goldRate p) 10)) ^^ length firings) (gold p),
                          units := ((\<lambda>u. fadd u (fdiv (unitRate p) 10)) ^^ length firings) (units p)\<rparr>)"
  using assms
proof (induction firings arbitrary: st gs p)
  case Nil
  then show ?case by (simp add: runTicks_def)
next
  case (Cons t firings)
  let ?gs1 = "updateResources gs t"
  let ?p1 = "if tiles p = [] then p
             else p\<lparr>gold := fadd (gold p) (fdiv (goldRate p) 10),
                    units := fadd (units p) (fdiv (unitRate p) 10)\<rparr>"
  have nt: "\<not> timeIsUp gs t" using Cons.prems(3) by simp
  have u: "?gs1 = gs\<lparr>players := map (\<lambda>(k, p). (k,
                  if tiles p = [] then p
                  else p\<lparr>gold := fadd (gold p) (fdiv (goldRate p) 10),
                         units := fadd (units p) (fdiv (unitRate p) 10)\<rparr>))
                (players gs)\<rparr>"
    by (rule updateResources_running[OF nt])
  have s1: "gameState (tick st t) = Some ?gs1"
    by (simp add: tick_running[OF Cons.prems(1,2)])
  have o1: "\<not> gameOver ?gs1"
    using Cons.prems(2) by (simp add: u)
  have e1: "\<forall>t' \<in> set firings. \<not> timeIsUp ?gs1 t'"
    using Cons.prems(3) by (simp add: u timeIsUp_def)
  have m1: "map_of (players ?gs1) k = Some ?p1"
    using Cons.prems(4) by (simp add: u map_of_keyed_map)
  from Cons.IH[OF s1 o1 e1 m1] obtain gs' where
    g: "gameState (runTicks (tick st t) firings) = Some gs'"
    and m: "map_of (players gs') k =
             Some (if tiles ?p1 = [] then ?p1
                   else ?p1\<lparr>gold := ((\<lambda>g. fadd g (fdiv (goldRate ?p1) 10)) ^^ length firings) (gold ?p1),
                          units := ((\<lambda>u. fadd u (fdiv (unitRate ?p1) 10)) ^^ length firings) (units ?p1)\<rparr>)"
    by blast
  have "runTicks st (t # firings) = runTicks (tick st t) firings"
    by (simp add: runTicks_def)
  have sw: "fadd (((\<lambda>g. fadd g c) ^^ n) a) c = ((\<lambda>g. fadd g c) ^^ n) (fadd a c)" for a c n
    using funpow_swap1[of "\<lambda>g. fadd g c" n a] by simp
  from g m show ?case
    unfolding \<open>runTicks st (t # firings) = runTicks (tick st t) firings\<close>
    by (cases "tiles p = []") (simp_all add: sw)
qed

lemma playerOf_runTicks:
  assumes "gameState st = Some gs" "\<not> gameOver gs" "\<forall>t \<in> set firings. \<not> timeIsUp gs t"
    and "map_of (players gs) k = Some p" and "tiles p \<noteq> []"
  shows "playerOf (runTicks st firings) k =
           Some (p\<lparr>gold := ((\<lambda>g. fadd g (fdiv (goldRate p) 10)) ^^ length firings) (gold p),
                   units := ((\<lambda>u. fadd u (fdiv (unitRate p) 10)) ^^ length firings) (units p)\<rparr>)"
  using runTicks_accrual[OF assms(1-4)] assms(5) by (auto simp: playerOf_def)

lemma ten_accruals: "((\<lambda>g. fadd g (fdiv 1 10)) ^^ 10) 0 = 9007199254740991 / 9007199254740992"
  by (simp add: eval_nat_numeral accrue_steps)

section \<open>initializeGameState in closed form\<close>

lemma assignStart_beyond:
  "length startingPositions \<le> index \<Longrightarrow> assignStart index ks s = s"
  by (induction ks arbitrary: index s) (auto split: prod.splits)

lemma updatePlayer_notin: "k \<notin> fst ` set ps \<Longrightarrow> updatePlayer k f ps = ps"
  by (induction ps) (auto simp: updatePlayer_def)

lemma startingPositions_eq: "startingPositions = [(3, 3), (20, 20), (3, 20)]"
  by (simp add: startingPositions_def GRID_SIZE_def)

lemma initializeGameState_none:
  "initializeGameState [] now =
     \<lparr>gameStarted = True, currentTurn = None, grid = emptyGrid, players = [],
      gameEndTime = Some (now + 300000), gameOver = False, winner = None\<rparr>"
  by (simp add: initializeGameState_def GAME_DURATION_MS_def)

lemma initializeGameState_one:
  "initializeGameState [(k1, p1)] now =
     \<lparr>gameStarted = True, currentTurn = Some k1,
      grid = updateTile emptyGrid 3 3 (\<lambda>t. t\<lparr>ownerId := Some k1, tcolor := Some (color p1)\<rparr>),
      players = [(k1, p1\<lparr>tiles := [(3, 3)],
                         unitRate := (if faction p1 = ALIENS then 1 else unitRate p1)\<rparr>)],
      gameEndTime = Some (now + 300000), gameOver = False, winner = None\<rparr>"
  by (simp add: initializeGameState_def GAME_DURATION_MS_def startingPositions_eq updatePlayer_def)

lemma initializeGameState_two:
  assumes "k1 \<noteq> k2"
  shows "initializeGameState [(k1, p1), (k2, p2)] now =
     \<lparr>gameStarted = True, currentTurn = Some k1,
      grid = updateTile
               (updateTile emptyGrid 3 3 (\<lambda>t. t\<lparr>ownerId := Some k1, tcolor := Some (color p1)\<rparr>))
               20 20 (\<lambda>t. t\<lparr>ownerId := Some k2, tcolor := Some (color p2)\<rparr>),
      players = [(k1, p1\<lparr>tiles := [(3, 3)],
                         unitRate := (if faction p1 = ALIENS then 1 else unitRate p1)\<rparr>),
                 (k2, p2\<lparr>tiles := [(20, 20)],
                         unitRate := (if faction p2 = ALIENS then 1 else unitRate p2)\<rparr>)],
      gameEndTime = Some (now + 300000), gameOver = False, winner = None\<rparr>"
  using assms
  by (simp add: initializeGameState_def GAME_DURATION_MS_def startingPositions_eq updatePlayer_def)

lemma initializeGameState_three:
  assumes "distinct (k1 # k2 # k3 # map fst rest)"
  shows "initializeGameState ((k1, p1) # (k2, p2) # (k3, p3) # rest) now =
     \<lparr>gameStarted = True, currentTurn = Some k1,
      grid = updateTile
               (updateTile
                  (updateTile emptyGrid 3 3 (\<lambda>t. t\<lparr>ownerId := Some k1, tcolor := Some (color p1)\<rparr>))
                  20 20 (\<lambda>t. t\<lparr>ownerId := Some k2, tcolor := Some (color p2)\<rparr>))
               3 20 (\<lambda>t. t\<lparr>ownerId := Some k3, tcolor := Some (color p3)\<rparr>),
      players = (k1, p1\<lparr>tiles := [(3, 3)],
                        unitRate := (if faction p1 = ALIENS then 1 else unitRate p1)\<rparr>) #
                (k2, p2\<lparr>tiles := [(20, 20)],
                        unitRate := (if faction p2 = ALIENS then 1 else unitRate p2)\<rparr>) #
                (k3, p3\<lparr>tiles := [(3, 20)],
                        unitRate := (if faction p3 = ALIENS then 1 else unitRate p3)\<rparr>) # rest,
      gameEndTime = Some (now + 300000), gameOver = False, winner = None\<rparr>"
proof -
  have r: "updatePlayer k f rest = rest" if "k \<in> {k1, k2, k3}" for k f
    using that assms by (intro updatePlayer_notin) auto
  have u: "updatePlayer k f ((j, p) # qs) = (j, if j = k then f p else p) # updatePlayer k f qs"
    for k f j p qs
    by (simp add: updatePlayer_def)
  have n: "k2 \<noteq> k1" "k3 \<noteq> k1" "k3 \<noteq> k2" "k1 \<noteq> k2" "k1 \<noteq> k3" "k2 \<noteq> k3"
    using assms by auto
  show ?thesis
    by (simp add: initializeGameState_def GAME_DURATION_MS_def startingPositions_eq u r n
          assignStart_beyond Let_def)
qed

lemma roster_cases:
  obtains (none) "ps = []"
  | (one) k1 p1 where "ps = [(k1, p1)]"
  | (two) k1 p1 k2 p2 where "ps = [(k1, p1), (k2, p2)]"
  | (more) k1 p1 k2 p2 k3 p3 rest where "ps = (k1, p1) # (k2, p2) # (k3, p3) # rest"
proof (cases ps)
  case Nil
  then show ?thesis by (rule none)
next
  case (Cons a as)
  obtain k1 p1 where a: "a = (k1, p1)" by (cases a)
  show ?thesis
  proof (cases as)
    case Nil
    with Cons a show ?thesis by (intro one) simp
  next
    case (Cons b bs)
    note asb = this
    obtain k2 p2 where b: "b = (k2, p2)" by (cases b)
    show ?thesis
    proof (cases bs)
      case Nil
      with \<open>ps = a # as\<close> asb a b show ?thesis by (intro two) simp
    next
      case (Cons c cs)
      obtain k3 p3 where c: "c = (k3, p3)" by (cases c)
      with \<open>ps = a # as\<close> asb Cons a b show ?thesis by (intro more) simp
    qed
  qed
qed

lemma less_three: "i < 3 \<longleftrightarrow> i = 0 \<or> i = Suc 0 \<or> i = Suc (Suc 0)" for i :: nat
  by auto

lemma startedGame_eq:
  "startedGame =
     \<lparr>gameStarted = True, currentTurn = Some ''A'',
      grid = updateTile
               (updateTile emptyGrid 3 3 (\<lambda>t. t\<lparr>ownerId := Some ''A'', tcolor := Some ''#3498db''\<rparr>))
               20 20 (\<lambda>t. t\<lparr>ownerId := Some ''B'', tcolor := Some ''#2ecc71''\<rparr>),
      players = [(''A'', playerA\<lparr>tiles := [(3, 3)]\<rparr>),
                 (''B'', playerB\<lparr>tiles := [(20, 20)], unitRate := 1\<rparr>)],
      gameEndTime = Some 301000, gameOver = False, winner = None\<rparr>"
  by (simp add: startedGame_def exampleRoster_def initializeGameState_two playerA_def playerB_def
        newPlayer_def)

lemma startedStore_game: "gameState startedStore = Some startedGame"
  by (simp add: startedStore_def startGame_def lobbyAB_def startedGame_def Let_def)

section \<open>The scan for the winner at the end of time\<close>

lemma findWinner_no_better:
  "\<forall>j < length xs. snd (xs ! j) \<le> m \<Longrightarrow> findWinner xs m w = w"
proof (induction xs arbitrary: m w)
  case Nil
  then show ?case by simp
next
  case (Cons a xs)
  obtain k s where a: "a = (k, s)" by (cases a)
  from Cons.prems have "snd ((a # xs) ! 0) \<le> m" by blast
  then have "s \<le> m" by (simp add: a)
  moreover have "\<forall>j < length xs. snd (xs ! j) \<le> m"
    using Cons.prems by (metis Suc_less_eq length_Cons nth_Cons_Suc)
  ultimately show ?case using Cons.IH by (simp add: a)
qed

lemma findWinner_first_max:
  assumes "i < length xs" "m < snd (xs ! i)"
    and "\<forall>j < length xs. snd (xs ! j) \<le> snd (xs ! i)"
    and "\<forall>j < i. snd (xs ! j) < snd (xs ! i)"
  shows "findWinner xs m w = Some (fst (xs ! i))"
  using assms
proof (induction xs arbitrary: i m w)
  case Nil
  then show ?case by simp
next
  case (Cons a xs)
  obtain k s where a: "a = (k, s)" by (cases a)
  show ?case
  proof (cases i)
    case 0
    have "\<forall>j < length xs. snd (xs ! j) \<le> s"
    proof (intro allI impI)
      fix j assume "j < length xs"
      then have "snd ((a # xs) ! Suc j) \<le> snd ((a # xs) ! i)"
        using Cons.prems(3) by (metis Suc_less_eq length_Cons)
      then show "snd (xs ! j) \<le> s" by (simp add: 0 a)
    qed
    then have "findWinner xs s (Some k) = Some k"
      by (rule findWinner_no_better)
    with Cons.prems(2) show ?thesis by (simp add: 0 a)
  next
    case (Suc i')
    have i': "i' < length xs" using Cons.prems(1) Suc by simp
    have lt: "s < snd (xs ! i')"
      using Cons.prems(4)[rule_format, of 0] by (simp add: Suc a)
    have mx: "\<forall>j < length xs. snd (xs ! j) \<le> snd (xs ! i')"
    proof (intro allI impI)
      fix j assume "j < length xs"
      then have "snd ((a # xs) ! Suc j) \<le> snd ((a # xs) ! i)"
        using Cons.prems(3) by (metis Suc_less_eq length_Cons)
      then show "snd (xs ! j) \<le> snd (xs ! i')" by (simp add: Suc)
    qed
    have fs: "\<forall>j < i'. snd (xs ! j) < snd (xs ! i')"
    proof (intro allI impI)
      fix j assume "j < i'"
      then have "snd ((a # xs) ! Suc j) < snd ((a # xs) ! i)"
        using Cons.prems(4) Suc by (metis Suc_less_eq)
      then show "snd (xs ! j) < snd (xs ! i')" by (simp add: Suc)
    qed
    have m': "m < snd (xs ! i')" using Cons.prems(2) by (simp add: Suc)
    show ?thesis
    proof (cases "m < s")
      case True
      then show ?thesis
        using Cons.IH[OF i' lt mx fs] by (simp add: a Suc)
    next
      case False
      then show ?thesis
        using Cons.IH[OF i' m' mx fs] by (simp add: a Suc)
    qed
  qed
qed

lemma updateResources_timeIsUp:
  "timeIsUp gs now \<Longrightarrow>
   updateResources gs now =
     gs\<lparr>gameOver := True,
        winner := findWinner (map (\<lambda>(k, p). (k, length (tiles p))) (players gs)) 0 None\<rparr>"
  by (simp add: updateResources_def)

lemma startedGame_fields:
  "players startedGame = [(''A'', playerA\<lparr>tiles := [(3, 3)]\<rparr>),
                          (''B'', playerB\<lparr>tiles := [(20, 20)], unitRate := 1\<rparr>)]"
  "gameEndTime startedGame = Some 301000" "\<not> gameOver startedGame"
  by (simp_all add: startedGame_eq)

section \<open>Preservation of the tiles invariant\<close>

lemma onStore_cases:
  assumes "onStore st body = Inr (b, st')" "gameState st = Some gs" "gameState st' = Some gs'"
  obtains (rejected) "gs' = gs" | (accepted) "body (myId st) gs = Inr (Some gs')"
  using assms by (auto simp: onStore_def split: option.splits sum.splits)

lemma tilesInvD:
  "tilesInv gs \<Longrightarrow> (k, p) \<in> set (players gs) \<Longrightarrow> set (tiles p) = ownedCoords (grid gs) (pid p)"
  unfolding tilesInv_def by blast

lemma keysMatchIdsD: "keysMatchIds ps \<Longrightarrow> (k, p) \<in> set ps \<Longrightarrow> pid p = k"
  unfolding keysMatchIds_def by blast

lemma tilesInv_frame:
  assumes "keysMatchIds (players gs)" "tilesInv gs"
    and "\<And>k. ownedCoords (grid gs') k = ownedCoords (grid gs) k"
    and "\<And>k p'. (k, p') \<in> set (players gs') \<Longrightarrow>
           \<exists>p. (k, p) \<in> set (players gs) \<and> tiles p' = tiles p \<and> pid p' = pid p"
  shows "keysMatchIds (players gs') \<and> tilesInv gs'"
  using assms unfolding keysMatchIds_def tilesInv_def by fastforce

lemma claim_preserves:
  assumes "keysMatchIds (players gs)" "tilesInv gs"
    and "claimTileOn me gs x y gc uc = Inr (Some gs')"
  shows "keysMatchIds (players gs') \<and> tilesInv gs'"
proof -
  let ?tile = "grid gs ! nat y ! nat x"
  let ?F = "\<lambda>k p. if k = me
                 then p\<lparr>gold := gold p - gc,
                        units := (if contested me ?tile then units p - uc else units p),
                        tiles := tiles p @ [(x, y)]\<rparr>
                 else if ownerId ?tile = Some k
                 then p\<lparr>tiles := filter (\<lambda>t. \<not> (fst t = x \<and> snd t = y)) (tiles p)\<rparr>
                 else p"
  from claimTileOn_SomeD[OF assms(3)] obtain actor :: Player where
    inG: "inRows (grid gs) y" "inRow (grid gs) x y"
    and gs': "gs' = checkElimination
                (gs\<lparr>grid := updateTile (grid gs) x y
                              (\<lambda>t. t\<lparr>ownerId := Some me, tcolor := Some (color actor)\<rparr>),
                    players := map (\<lambda>(k, p). (k, ?F k p)) (players gs)\<rparr>)"
    by blast
  have g: "grid gs' = updateTile (grid gs) x y
                              (\<lambda>t. t\<lparr>ownerId := Some me, tcolor := Some (color actor)\<rparr>)"
    and pl: "players gs' = map (\<lambda>(k, p). (k, ?F k p)) (players gs)"
    by (simp_all add: gs')
  have oc: "ownedCoords (grid gs') k =
              (if k = me then insert (x, y) (ownedCoords (grid gs) k)
               else ownedCoords (grid gs) k - {(x, y)})" for k
    unfolding g by (rule ownedCoords_claim[OF inG]) simp
  have here: "(x, y) \<in> ownedCoords (grid gs) k \<longleftrightarrow> ownerId ?tile = Some k" for k
    using inG by (simp add: ownedCoords_def)
  have one: "pid (?F k p) = k \<and> set (tiles (?F k p)) = ownedCoords (grid gs') k"
    if "(k, p) \<in> set (players gs)" for k p
  proof -
    from that assms(1) have id: "pid p = k"
      by (rule keysMatchIdsD[rotated])
    from tilesInvD[OF assms(2) that] have inv: "set (tiles p) = ownedCoords (grid gs) k"
      by (simp add: id)
    show ?thesis
    proof (cases "k = me")
      case True
      then show ?thesis using id inv by (simp add: oc)
    next
      case False
      show ?thesis
      proof (cases "ownerId ?tile = Some k")
        case True
        have "set (filter (\<lambda>t. \<not> (fst t = x \<and> snd t = y)) (tiles p)) = set (tiles p) - {(x, y)}"
          by auto
        then show ?thesis using False True id inv by (simp add: oc)
      next
        case no: False
        then have "(x, y) \<notin> ownedCoords (grid gs) k" by (simp add: here)
        then show ?thesis using False no id inv by (simp add: oc)
      qed
    qed
  qed
  show ?thesis
    unfolding keysMatchIds_def tilesInv_def pl
    using one by (auto simp: in_set_keyed_map simp del: set_map)
qed

lemma build_preserves:
  assumes "keysMatchIds (players gs)" "tilesInv gs"
    and "buildConstructOn me gs x y T = Inr (Some gs')"
  shows "keysMatchIds (players gs') \<and> tilesInv gs'"
proof -
  from assms(3) obtain cost where inG: "inRows (grid gs) y" "inRow (grid gs) x y"
    and gs': "gs' = buildApply me gs x y T cost"
    by (auto simp: buildConstructOn_def Let_def split: if_splits option.splits)
  show ?thesis
  proof (rule tilesInv_frame[OF assms(1,2)])
    fix k
    show "ownedCoords (grid gs') k = ownedCoords (grid gs) k"
      using inG by (simp add: gs' buildApply_def Let_def ownedCoords_same_owner)
  next
    fix k p'
    assume "(k, p') \<in> set (players gs')"
    then show "\<exists>p. (k, p) \<in> set (players gs) \<and> tiles p' = tiles p \<and> pid p' = pid p"
      by (auto simp: gs' buildApply_def Let_def in_set_updatePlayer split: if_splits)
  qed
qed

lemma demolish_preserves:
  assumes "keysMatchIds (players gs)" "tilesInv gs"
    and "demolishConstructOn me gs x y = Inr (Some gs')"
  shows "keysMatchIds (players gs') \<and> tilesInv gs'"
proof -
  from assms(3) obtain T where inG: "inRows (grid gs) y" "inRow (grid gs) x y"
    and gs': "demolishApply me gs x y T = Inr gs'"
    by (auto simp: demolishConstructOn_def Let_def split: if_splits option.splits sum.splits)
  show ?thesis
  proof (rule tilesInv_frame[OF assms(1,2)])
    fix k
    show "ownedCoords (grid gs') k = ownedCoords (grid gs) k"
      using inG gs'
      by (auto simp: demolishApply_def Let_def ownedCoords_same_owner
               split: if_splits option.splits)
  next
    fix k p'
    assume "(k, p') \<in> set (players gs')"
    then show "\<exists>p. (k, p) \<in> set (players gs) \<and> tiles p' = tiles p \<and> pid p' = pid p"
      using gs'
      by (auto simp: demolishApply_def Let_def in_set_updatePlayer split: if_splits option.splits)
         blast+
  qed
qed

lemma tick_preserves:
  assumes "keysMatchIds (players gs)" "tilesInv gs"
  shows "keysMatchIds (players (updateResources gs now)) \<and> tilesInv (updateResources gs now)"
proof (cases "timeIsUp gs now")
  case True
  then show ?thesis
    using assms by (simp add: updateResources_timeIsUp tilesInv_def)
next
  case False
  show ?thesis
  proof (rule tilesInv_frame[OF assms])
    fix k
    show "ownedCoords (grid (updateResources gs now)) k = ownedCoords (grid gs) k"
      by (simp add: updateResources_running[OF False])
  next
    fix k p'
    assume "(k, p') \<in> set (players (updateResources gs now))"
    then show "\<exists>p. (k, p) \<in> set (players gs) \<and> tiles p' = tiles p \<and> pid p' = pid p"
      by (auto simp: updateResources_running[OF False] in_set_keyed_map simp del: set_map)
  qed
qed

lemma engineStep_preserves:
  assumes "engineStep gs gs'" "keysMatchIds (players gs)" "tilesInv gs"
  shows "keysMatchIds (players gs') \<and> tilesInv gs'"
  using assms
proof (cases rule: engineStep.cases)
  case (claim st x y goldCost unitCost b st')
  from claim(2)[unfolded claimTile_def] claim(1,3) show ?thesis
    by (cases rule: onStore_cases) (use assms claim_preserves in blast)+
next
  case (build st x y constructType b st')
  from build(2)[unfolded buildConstruct_def] build(1,3) show ?thesis
    by (cases rule: onStore_cases) (use assms build_preserves in blast)+
next
  case (demolish st x y b st')
  from demolish(2)[unfolded demolishConstruct_def] demolish(1,3) show ?thesis
    by (cases rule: onStore_cases) (use assms demolish_preserves in blast)+
next
  case (ticker st now)
  then have "gs' = gs \<or> gs' = updateResources gs now"
    by (auto simp: tick_def split: if_splits)
  then show ?thesis
    using assms tick_preserves by blast
qed

lemma initializeGameState_inv:
  assumes "lobbyRoster ps"
  shows "keysMatchIds (players (initializeGameState ps now)) \<and>
         tilesInv (initializeGameState ps now)"
proof (cases ps rule: roster_cases)
  case none
  then show ?thesis
    by (simp add: initializeGameState_none keysMatchIds_def tilesInv_def)
next
  case (one k1 p1)
  then show ?thesis
    using assms
    by (simp add: initializeGameState_one keysMatchIds_def tilesInv_def lobbyRoster_def
          ownedCoords_claim inRows_emptyGrid inRow_emptyGrid)
next
  case (two k1 p1 k2 p2)
  with assms have "k1 \<noteq> k2" by (simp add: lobbyRoster_def)
  then show ?thesis
    using assms unfolding two
    by (simp add: initializeGameState_two keysMatchIds_def tilesInv_def lobbyRoster_def
          ownedCoords_claim inRows_emptyGrid inRow_emptyGrid)
next
  case (more k1 p1 k2 p2 k3 p3 rest)
  with assms have d: "distinct (k1 # k2 # k3 # map fst rest)"
    and ids: "pid p1 = k1" "pid p2 = k2" "pid p3 = k3"
    and rest: "\<forall>(k, p) \<in> set rest. pid p = k \<and> tiles p = []"
    by (auto simp: lobbyRoster_def keysMatchIds_def)
  have nr: "k \<noteq> k1 \<and> k \<noteq> k2 \<and> k \<noteq> k3" if "(k, p) \<in> set rest" for k p
    using d that by (auto simp: image_iff)
  have "pid p = k \<and> tiles p = [] \<and> k \<noteq> k1 \<and> k \<noteq> k2 \<and> k \<noteq> k3" if "(k, p) \<in> set rest" for k p
    using rest nr that by blast
  then show ?thesis
    using d ids unfolding more initializeGameState_three[OF d]
    by (auto simp: keysMatchIds_def tilesInv_def
          ownedCoords_claim inRows_emptyGrid inRow_emptyGrid)
qed

lemma reachable_inv: "reachable gs \<Longrightarrow> keysMatchIds (players gs) \<and> tilesInv gs"
proof (induction rule: reachable.induct)
  case (started st l now gs)
  then have "gs = initializeGameState (lplayers l) now"
    by (simp add: startGame_def Let_def)
  with started(2) show ?case
    by (simp add: initializeGameState_inv)
next
  case (step gs gs')
  then show ?case
    using engineStep_preserves by blast
qed

lemma reachable_startedGame: "reachable startedGame"
proof (rule reachable.started)
  show "lobbyState \<lparr>myId = ''A'', lobbyState = Some lobbyAB, gameState = None\<rparr> = Some lobbyAB"
    by simp
  show "lobbyRoster (lplayers lobbyAB)"
    by (simp add: lobbyRoster_def keysMatchIds_def lobbyAB_def exampleRoster_def playerA_def
          playerB_def newPlayer_def)
  show "gameState (startGame \<lparr>myId = ''A'', lobbyState = Some lobbyAB, gameState = None\<rparr> 1000) =
          Some startedGame"
    using startedStore_game by (simp add: startedStore_def)
qed

section \<open>Claims\<close>

text \<open>
  C1. In every reachable snapshot the \<open>tiles\<close> list of every player, read as a set, is the
  set of coordinates of the grid whose tile carries that player's id. A snapshot is
  reachable when \<open>startGame\<close> has produced it from a roster of the lobby, or when
  \<open>claimTile\<close>, \<open>buildConstruct\<close>, \<open>demolishConstruct\<close> or the ticker has produced it from
  a reachable one. Moreover each of these operations preserves the equality from any
  state whose records are stored under their own ids, and the initialization establishes
  it on every lobby roster.
\<close>

theorem tiles_invariant:
  "(reachable gs \<and> (k, p) \<in> set (players gs) \<longrightarrow>
      set (tiles p) =
        {(x, y). 0 \<le> y \<and> y < int (length (grid gs)) \<and>
                 0 \<le> x \<and> x < int (length (grid gs ! nat y)) \<and>
                 ownerId (grid gs ! nat y ! nat x) = Some (pid p)}) \<and>
   (keysMatchIds (players gs) \<and> tilesInv gs \<and> engineStep gs gs' \<longrightarrow>
      keysMatchIds (players gs') \<and> tilesInv gs') \<and>
   (lobbyRoster ps \<longrightarrow>
      keysMatchIds (players (initializeGameState ps now)) \<and>
      tilesInv (initializeGameState ps now))"
proof (intro conjI impI)
  assume a: "reachable gs \<and> (k, p) \<in> set (players gs)"
  then have "tilesInv gs"
    using reachable_inv by blast
  then have "set (tiles p) = ownedCoords (grid gs) (pid p)"
    using a tilesInvD by blast
  then show "set (tiles p) =
        {(x, y). 0 \<le> y \<and> y < int (length (grid gs)) \<and>
                 0 \<le> x \<and> x < int (length (grid gs ! nat y)) \<and>
                 ownerId (grid gs ! nat y ! nat x) = Some (pid p)}"
    by (auto simp: ownedCoords_def inRows_def inRow_def)
next
  assume "keysMatchIds (players gs) \<and> tilesInv gs \<and> engineStep gs gs'"
  then show "keysMatchIds (players gs')" "tilesInv gs'"
    using engineStep_preserves by blast+
next
  assume "lobbyRoster ps"
  then show "keysMatchIds (players (initializeGameState ps now))"
    "tilesInv (initializeGameState ps now)"
    using initializeGameState_inv by blast+
qed

theorem tiles_invariant_witness:
  "reachable startedGame \<and>
   (''B'', playerB\<lparr>tiles := [(20, 20)], unitRate := 1\<rparr>) \<in> set (players startedGame) \<and>
   {(x, y). 0 \<le> y \<and> y < int (length (grid startedGame)) \<and>
            0 \<le> x \<and> x < int (length (grid startedGame ! nat y)) \<and>
            ownerId (grid startedGame ! nat y ! nat x) = Some ''B''} = {(20, 20)}"
proof -
  have m: "(''B'', playerB\<lparr>tiles := [(20, 20)], unitRate := 1\<rparr>) \<in> set (players startedGame)"
    by (simp add: startedGame_fields)
  from tiles_invariant[of startedGame "''B''" "playerB\<lparr>tiles := [(20, 20)], unitRate := 1\<rparr>"]
    reachable_startedGame m
  show ?thesis
    by (simp add: playerB_def newPlayer_def)
qed

text \<open>
  C2. For every game state and every target coordinate inside the grid that is not
  4-directionally adjacent to any tile of the acting player, \<open>claimTile\<close> returns false and
  leaves the store unchanged, whatever the gold and the units of the player and whatever
  the costs. The tiles of the player are read from the player's \<open>tiles\<close> list, as the code
  does, or from the grid when the tiles invariant holds.
\<close>

theorem claimTile_rejects_non_adjacent:
  assumes "gameState st = Some gs"
    and "map_of (players gs) (myId st) = Some player"
    and "inRows (grid gs) y" and "inRow (grid gs) x y"
    and "(\<forall>t \<in> set (tiles player). \<not> neighbours t (x, y)) \<or>
         (tilesInv gs \<and> (\<forall>t \<in> ownedCoords (grid gs) (pid player). \<not> neighbours t (x, y)))"
  shows "claimTile st x y goldCost unitCost = Inr (False, st)"
proof -
  have "(myId st, player) \<in> set (players gs)"
    using assms(2) by (rule map_of_SomeD)
  with assms(5) have "\<forall>t \<in> set (tiles player). \<not> neighbours t (x, y)"
    by (auto simp: tilesInv_def)
  then have "\<not> isAdjacent (tiles player) x y"
    by (simp add: isAdjacent_iff)
  then have "claimTileOn (myId st) gs x y goldCost unitCost = Inr None"
    using assms(2-4) by (simp add: claimTileOn_def Let_def)
  then show ?thesis
    unfolding claimTile_def using assms(1) by (rule onStore_reject[rotated])
qed

theorem claimTile_rejects_non_adjacent_witness:
  "inRows (grid soloGame) 10 \<and> inRow (grid soloGame) 10 10 \<and>
   \<not> neighbours (3, 3) (10, 10) \<and>
   claimTile soloStore 10 10 0 0 = Inr (False, soloStore)"
proof -
  have h1: "gameState soloStore = Some soloGame"
    by (simp add: soloStore_def)
  have h2: "map_of (players soloGame) (myId soloStore) = Some (playerA\<lparr>gold := 10, tiles := [(3, 3)]\<rparr>)"
    by (simp add: soloStore_def soloGame_def)
  have h3: "inRows (grid soloGame) 10"
    by (simp add: soloGame_def inRows_emptyGrid)
  have h4: "inRow (grid soloGame) 10 10"
    by (simp add: soloGame_def inRows_emptyGrid inRow_emptyGrid)
  have h5: "\<forall>t \<in> set [(3, 3)]. \<not> neighbours t (10, 10)"
    by (simp add: neighbours_def)
  have h6: "(\<forall>t \<in> set (tiles (playerA\<lparr>gold := 10, tiles := [(3, 3)]\<rparr>)). \<not> neighbours t (10, 10)) \<or>
         (tilesInv soloGame \<and>
          (\<forall>t \<in> ownedCoords (grid soloGame) (pid (playerA\<lparr>gold := 10, tiles := [(3, 3)]\<rparr>)).
              \<not> neighbours t (10, 10)))"
    using h5 by simp
  show ?thesis
    using h3 h4 h5 claimTile_rejects_non_adjacent[OF h1 h2 h3 h4 h6, of 0 0] by simp
qed



text \<open>
  C4. After a successful \<open>claimTile\<close> on a roster with distinct keys: if exactly one
  player holds tiles in the new state, the new state is over and that player's id is the
  winner; if two players hold tiles, \<open>gameOver\<close> and \<open>winner\<close> are those of the state
  before. The acting player always holds a tile afterwards, so no third case exists.
\<close>

theorem claimTile_elimination_winner:
  assumes "claimTile st x y goldCost unitCost = Inr (True, st')"
    and "gameState st = Some gs" and "gameState st' = Some gs'"
    and "distinct (map fst (players gs))"
  shows "(\<forall>k p. (k, p) \<in> set (players gs') \<and> tiles p \<noteq> [] \<and>
                (\<forall>(k', p') \<in> set (players gs'). tiles p' \<noteq> [] \<longrightarrow> k' = k) \<longrightarrow>
              gameOver gs' \<and> winner gs' = Some (pid p)) \<and>
         ((\<exists>k p k' p'. (k, p) \<in> set (players gs') \<and> (k', p') \<in> set (players gs') \<and> k \<noteq> k' \<and>
                        tiles p \<noteq> [] \<and> tiles p' \<noteq> []) \<longrightarrow>
              gameOver gs' = gameOver gs \<and> winner gs' = winner gs) \<and>
         (\<exists>p. (myId st, p) \<in> set (players gs') \<and> tiles p \<noteq> [])"
proof -
  from onStore_TrueD[OF assms(1)[unfolded claimTile_def]] assms(2,3)
  have ok: "claimTileOn (myId st) gs x y goldCost unitCost = Inr (Some gs')"
    by auto
  from claimTileOn_SomeD[OF ok] obtain actor g ps where
    actor: "map_of (players gs) (myId st) = Some actor"
    and gs': "gs' = checkElimination (gs\<lparr>grid := g, players := ps\<rparr>)"
    and ps: "ps = map (\<lambda>(k, p). (k,
                 if k = myId st
                 then p\<lparr>gold := gold p - goldCost,
                        units := (if contested (myId st) (grid gs ! nat y ! nat x)
                                  then units p - unitCost else units p),
                        tiles := tiles p @ [(x, y)]\<rparr>
                 else if ownerId (grid gs ! nat y ! nat x) = Some k
                 then p\<lparr>tiles := filter (\<lambda>t. \<not> (fst t = x \<and> snd t = y)) (tiles p)\<rparr>
                 else p)) (players gs)"
    by blast
  let ?G = "gs\<lparr>grid := g, players := ps\<rparr>"
  have pl: "players gs' = ps" by (simp add: gs')
  have "map fst ps = map fst (players gs)"
    unfolding ps by (rule map_fst_keyed_map)
  then have d: "distinct (map fst (players ?G))"
    using assms(4) by simp
  have one: "gameOver gs' \<and> winner gs' = Some (pid p)"
    if "(k, p) \<in> set (players gs')" "tiles p \<noteq> []"
       "\<forall>(k', p') \<in> set (players gs'). tiles p' \<noteq> [] \<longrightarrow> k' = k" for k p
  proof -
    have "checkElimination ?G = ?G\<lparr>gameOver := True, winner := Some (pid p)\<rparr>"
      using that d unfolding pl by (intro checkElimination_single[where k = k]) simp_all
    then show ?thesis by (simp add: gs')
  qed
  have many: "gameOver gs' = gameOver gs \<and> winner gs' = winner gs"
    if "(k, p) \<in> set (players gs')" "(k', p') \<in> set (players gs')" "k \<noteq> k'"
       "tiles p \<noteq> []" "tiles p' \<noteq> []" for k p k' p'
  proof -
    have "checkElimination ?G = ?G"
      using that unfolding pl
      by (intro checkElimination_many[where k = k and k' = k' and p = p and p' = p']) simp_all
    then show ?thesis by (simp add: gs')
  qed
  have "(myId st, actor) \<in> set (players gs)"
    using actor by (rule map_of_SomeD)
  then have "\<exists>p. (myId st, p) \<in> set (players gs') \<and> tiles p \<noteq> []"
    unfolding pl ps in_set_keyed_map
    by (cases "contested (myId st) (grid gs ! nat y ! nat x)") force+
  with one many show ?thesis by blast
qed

theorem claimTile_elimination_winner_witness:
  "claimTile duelStore 5 5 12 15 = Inr (True, duelStore\<lparr>gameState := Some duelAfter\<rparr>) \<and>
   distinct (map fst (players duelGame)) \<and>
   players duelAfter = [(''A'', playerA\<lparr>gold := 0, units := 1, tiles := [(4, 5), (5, 5)]\<rparr>),
                        (''B'', playerB\<lparr>unitRate := 1, tiles := []\<rparr>)] \<and>
   gameOver duelAfter \<and> winner duelAfter = Some ''A''"
proof -
  have h2: "gameState duelStore = Some duelGame"
    by (simp add: duelStore_def)
  have h3: "gameState (duelStore\<lparr>gameState := Some duelAfter\<rparr>) = Some duelAfter"
    by simp
  have pl: "players duelAfter = [(''A'', playerA\<lparr>gold := 0, units := 1, tiles := [(4, 5), (5, 5)]\<rparr>),
                        (''B'', playerB\<lparr>unitRate := 1, tiles := []\<rparr>)]"
    by (simp add: duelAfter_def)
  note inst = claimTile_elimination_winner[OF duel_claim_store h2 h3 duel_keys]
  from inst have "(''A'', playerA\<lparr>gold := 0, units := 1, tiles := [(4, 5), (5, 5)]\<rparr>) \<in> set (players duelAfter) \<and>
       tiles (playerA\<lparr>gold := 0, units := 1, tiles := [(4, 5), (5, 5)]\<rparr>) \<noteq> [] \<and>
       (\<forall>(k', p') \<in> set (players duelAfter). tiles p' \<noteq> [] \<longrightarrow> k' = ''A'') \<longrightarrow>
       gameOver duelAfter \<and> winner duelAfter = Some (pid (playerA\<lparr>gold := 0, units := 1, tiles := [(4, 5), (5, 5)]\<rparr>))"
    by blast
  then have "gameOver duelAfter \<and> winner duelAfter = Some ''A''"
    by (simp add: pl playerA_def newPlayer_def)
  with duel_claim_store duel_keys pl show ?thesis by simp
qed

text \<open>
  C5, as stated, fails on a tie: in the game just started by two players each holds one
  tile, and when the time is up the winner is \<open>A\<close>, the first of the roster, not null.
\<close>

theorem tie_has_winner:
  "gameState startedStore = Some startedGame \<and>
   gameEndTime startedGame = Some 301000 \<and>
   map_option tiles (map_of (players startedGame) ''A'') = Some [(3, 3)] \<and>
   map_option tiles (map_of (players startedGame) ''B'') = Some [(20, 20)] \<and>
   gameState (tick startedStore 301000) =
     Some (startedGame\<lparr>gameOver := True, winner := Some ''A''\<rparr>)"
proof -
  have "timeIsUp startedGame 301000"
    by (simp add: timeIsUp_def startedGame_fields)
  then have "updateResources startedGame 301000 = startedGame\<lparr>gameOver := True, winner := Some ''A''\<rparr>"
    by (simp add: updateResources_timeIsUp startedGame_fields)
  then have "gameState (tick startedStore 301000) =
     Some (startedGame\<lparr>gameOver := True, winner := Some ''A''\<rparr>)"
    by (simp add: tick_def startedStore_game startedGame_fields)
  then show ?thesis
    by (simp add: startedStore_game startedGame_fields)
qed

text \<open>
  C5, amended. When the ticker fires on a running game whose \<open>gameEndTime\<close> is set
  (neither null nor 0) and reached, it sets \<open>gameOver\<close> and changes nothing else but
  \<open>winner\<close>: the winner is the first player in roster order among those with the highest
  tile count, provided that count is positive, and null when no player holds a tile. In
  particular a player with strictly more tiles than every other player wins.
\<close>

theorem time_up_winner:
  assumes "gameState st = Some gs" and "\<not> gameOver gs"
    and "gameEndTime gs = Some t" and "t \<noteq> 0" and "t \<le> now"
  shows "\<exists>gs'. gameState (tick st now) = Some gs' \<and> gameOver gs' \<and>
           gs' = gs\<lparr>gameOver := True, winner := winner gs'\<rparr> \<and>
           ((\<forall>i < length (players gs). tiles (snd (players gs ! i)) = []) \<longrightarrow> winner gs' = None) \<and>
           (\<forall>i < length (players gs).
              tiles (snd (players gs ! i)) \<noteq> [] \<and>
              (\<forall>j < length (players gs).
                 length (tiles (snd (players gs ! j))) \<le> length (tiles (snd (players gs ! i)))) \<and>
              (\<forall>j < i. length (tiles (snd (players gs ! j))) < length (tiles (snd (players gs ! i))))
              \<longrightarrow> winner gs' = Some (fst (players gs ! i))) \<and>
           (\<forall>i < length (players gs).
              tiles (snd (players gs ! i)) \<noteq> [] \<and>
              (\<forall>j < length (players gs). j \<noteq> i \<longrightarrow>
                 length (tiles (snd (players gs ! j))) < length (tiles (snd (players gs ! i))))
              \<longrightarrow> winner gs' = Some (fst (players gs ! i)))"
proof -
  let ?scores = "map (\<lambda>(k, p). (k, length (tiles p))) (players gs)"
  let ?w = "findWinner ?scores 0 None"
  let ?gs' = "gs\<lparr>gameOver := True, winner := ?w\<rparr>"
  have up: "timeIsUp gs now"
    using assms(3,4,5) by (simp add: timeIsUp_def)
  have tk: "gameState (tick st now) = Some ?gs'"
    using assms(1,2) by (simp add: tick_def updateResources_timeIsUp[OF up])
  have none: "?w = None" if "\<forall>i < length (players gs). tiles (snd (players gs ! i)) = []"
    by (rule findWinner_no_better) (simp add: case_prod_unfold that)
  have first: "?w = Some (fst (players gs ! i))"
    if "i < length (players gs)" "tiles (snd (players gs ! i)) \<noteq> []"
      "\<forall>j < length (players gs).
          length (tiles (snd (players gs ! j))) \<le> length (tiles (snd (players gs ! i)))"
      "\<forall>j < i. length (tiles (snd (players gs ! j))) < length (tiles (snd (players gs ! i)))" for i
  proof -
    have "?w = Some (fst (?scores ! i))"
      using that by (intro findWinner_first_max) (simp_all add: case_prod_unfold)
    then show ?thesis using that(1) by (simp add: case_prod_unfold)
  qed
  have strict: "?w = Some (fst (players gs ! i))"
    if "i < length (players gs)" "tiles (snd (players gs ! i)) \<noteq> []"
      "\<forall>j < length (players gs). j \<noteq> i \<longrightarrow>
          length (tiles (snd (players gs ! j))) < length (tiles (snd (players gs ! i)))" for i
  proof (rule first[OF that(1,2)])
    show "\<forall>j < length (players gs).
          length (tiles (snd (players gs ! j))) \<le> length (tiles (snd (players gs ! i)))"
      using that(3) by (metis le_refl less_imp_le)
    show "\<forall>j < i. length (tiles (snd (players gs ! j))) < length (tiles (snd (players gs ! i)))"
      using that(1,3) by (metis less_trans nat_neq_iff)
  qed
  show ?thesis
    using tk none first strict by (intro exI[of _ ?gs']) simp
qed

theorem time_up_winner_witness:
  "gameState startedStore = Some startedGame \<and> \<not> gameOver startedGame \<and>
   gameEndTime startedGame = Some 301000 \<and>
   (\<exists>gs'. gameState (tick startedStore 301000) = Some gs' \<and> gameOver gs' \<and>
           winner gs' = Some ''A'')"
proof -
  have t: "(301000::int) \<noteq> 0" "(301000::int) \<le> 301000"
    by simp_all
  from time_up_winner[OF startedStore_game startedGame_fields(3,2) t]
  obtain gs' where g: "gameState (tick startedStore 301000) = Some gs'" "gameOver gs'"
    and w: "\<forall>i < length (players startedGame).
              tiles (snd (players startedGame ! i)) \<noteq> [] \<and>
              (\<forall>j < length (players startedGame).
                 length (tiles (snd (players startedGame ! j))) \<le>
                 length (tiles (snd (players startedGame ! i)))) \<and>
              (\<forall>j < i. length (tiles (snd (players startedGame ! j))) <
                        length (tiles (snd (players startedGame ! i))))
              \<longrightarrow> winner gs' = Some (fst (players startedGame ! i))"
    by blast
  from w[rule_format, of 0] have "winner gs' = Some ''A''"
    by (simp add: startedGame_fields less_Suc_eq)
  with g show ?thesis
    by (auto simp: startedStore_game startedGame_fields)
qed

text \<open>
  C6, as stated, fails on the second and third coordinate: \<open>GRID_SIZE - 4\<close> is 20, so the
  second player of a two-player lobby starts on (20,20), and (21,21) stays without owner.
\<close>

theorem second_start_is_20_20:
  "map_option tiles (map_of (players (initializeGameState exampleRoster 1000)) ''B'') =
     Some [(20, 20)] \<and>
   ownerId (grid (initializeGameState exampleRoster 1000) ! 20 ! 20) = Some ''B'' \<and>
   ownerId (grid (initializeGameState exampleRoster 1000) ! 21 ! 21) = None"
  unfolding startedGame_def[symmetric]
  by (simp add: startedGame_eq grid_simps emptyTile_def)

text \<open>
  C6, amended. \<open>initializeGameState\<close> builds a 24 by 24 grid that is empty except for
  the starting tiles; the starting coordinates are (3,3), (20,20) and (3,20), given in
  roster order to the first \<open>min(playerCount, 3)\<close> players; each starting tile carries
  its player's key and color, and that player's \<open>tiles\<close> is exactly that coordinate; among
  these players an \<open>ALIENS\<close> player gets \<open>unitRate\<close> 1 and every other keeps the
  \<open>unitRate\<close> it had (0 for a player fresh from the lobby); a player after the third is
  returned unchanged; \<open>gameEndTime\<close> is \<open>now + 300000\<close>, \<open>gameOver\<close> is false, \<open>winner\<close>
  is null.
\<close>

theorem initializeGameState_start:
  assumes "distinct (map fst ps)"
    and "gs = initializeGameState ps now" and "n = min (length ps) 3"
  shows "startingPositions = [(3, 3), (20, 20), (3, 20)] \<and>
         length (grid gs) = 24 \<and> (\<forall>y < 24. length (grid gs ! y) = 24) \<and>
         (\<forall>i < n. grid gs ! nat (snd (startingPositions ! i)) ! nat (fst (startingPositions ! i)) =
                     (emptyTile (fst (startingPositions ! i)) (snd (startingPositions ! i)))
                       \<lparr>ownerId := Some (fst (ps ! i)), tcolor := Some (color (snd (ps ! i)))\<rparr>) \<and>
         (\<forall>x < 24. \<forall>y < 24. (int x, int y) \<notin> set (take n startingPositions) \<longrightarrow>
                     grid gs ! y ! x = emptyTile (int x) (int y)) \<and>
         map fst (players gs) = map fst ps \<and>
         (\<forall>i < length ps.
            snd (players gs ! i) =
              (if i < 3
               then (snd (ps ! i))
                      \<lparr>tiles := [startingPositions ! i],
                       unitRate := (if faction (snd (ps ! i)) = ALIENS then 1
                                    else unitRate (snd (ps ! i)))\<rparr>
               else snd (ps ! i))) \<and>
         gameEndTime gs = Some (now + 300000) \<and> \<not> gameOver gs \<and> winner gs = None \<and>
         gameStarted gs \<and> currentTurn gs = (case ps of [] \<Rightarrow> None | (k, p) # rest \<Rightarrow> Some k)"
proof (cases ps rule: roster_cases)
  case none
  then show ?thesis
    unfolding assms(2,3)
    by (simp add: initializeGameState_none startingPositions_eq grid_simps)
next
  case (one k1 p1)
  then show ?thesis
    unfolding assms(2,3)
    by (simp add: initializeGameState_one startingPositions_eq grid_simps)
next
  case (two k1 p1 k2 p2)
  with assms(1) have "k1 \<noteq> k2" by simp
  then show ?thesis
    unfolding assms(2,3) two
    by (simp add: initializeGameState_two startingPositions_eq grid_simps less_Suc_eq)
next
  case (more k1 p1 k2 p2 k3 p3 rest)
  with assms(1) have d: "distinct (k1 # k2 # k3 # map fst rest)" by simp
  have nth: "((k1, p1) # (k2, p2) # (k3, p3) # rest) ! i =
         (if i = 0 then (k1, p1) else if i = 1 then (k2, p2) else if i = 2 then (k3, p3)
          else rest ! (i - 3))" for i
    by (auto simp: nth_Cons split: nat.splits)
  show ?thesis
    unfolding assms(2,3) more initializeGameState_three[OF d]
    by (simp add: startingPositions_eq grid_simps less_three nth) (simp add: numeral_3_eq_3)
qed

theorem initializeGameState_start_witness:
  "distinct (map fst exampleRoster) \<and>
   startingPositions ! 1 = (20, 20) \<and>
   snd (players (initializeGameState exampleRoster 1000) ! 1) =
     playerB\<lparr>tiles := [(20, 20)], unitRate := 1\<rparr> \<and>
   grid (initializeGameState exampleRoster 1000) ! 20 ! 20 =
     (emptyTile 20 20)\<lparr>ownerId := Some ''B'', tcolor := Some ''#2ecc71''\<rparr> \<and>
   gameEndTime (initializeGameState exampleRoster 1000) = Some 301000"
proof -
  have d: "distinct (map fst exampleRoster)"
    by (simp add: exampleRoster_def)
  have n: "2 = min (length exampleRoster) 3"
    by (simp add: exampleRoster_def)
  note inst = initializeGameState_start[OF d refl n, of 1000]
  from inst have sp: "startingPositions = [(3, 3), (20, 20), (3, 20)]"
    by blast
  have s: "startingPositions ! 1 = (20, 20)"
    by (simp add: sp)
  from inst have a: "\<forall>i < length exampleRoster.
            snd (players (initializeGameState exampleRoster 1000) ! i) =
              (if i < 3
               then (snd (exampleRoster ! i))
                      \<lparr>tiles := [startingPositions ! i],
                       unitRate := (if faction (snd (exampleRoster ! i)) = ALIENS then 1
                                    else unitRate (snd (exampleRoster ! i)))\<rparr>
               else snd (exampleRoster ! i))"
    by blast
  from a[rule_format, of 1]
  have p: "snd (players (initializeGameState exampleRoster 1000) ! 1) =
     playerB\<lparr>tiles := [(20, 20)], unitRate := 1\<rparr>"
    by (simp add: exampleRoster_def sp playerB_def newPlayer_def)
  from inst have b: "\<forall>i < (2::nat).
       grid (initializeGameState exampleRoster 1000) ! nat (snd (startingPositions ! i)) !
            nat (fst (startingPositions ! i)) =
         (emptyTile (fst (startingPositions ! i)) (snd (startingPositions ! i)))
            \<lparr>ownerId := Some (fst (exampleRoster ! i)),
             tcolor := Some (color (snd (exampleRoster ! i)))\<rparr>"
    by blast
  from b[rule_format, of 1]
  have g: "grid (initializeGameState exampleRoster 1000) ! 20 ! 20 =
     (emptyTile 20 20)\<lparr>ownerId := Some ''B'', tcolor := Some ''#2ecc71''\<rparr>"
    by (simp add: exampleRoster_def sp playerB_def newPlayer_def)
  from inst have e: "gameEndTime (initializeGameState exampleRoster 1000) = Some 301000"
    by auto
  from d s p g e show ?thesis by simp
qed

text \<open>
  C7. From a state in which the tile is inside the grid, owned by the acting player and
  without a construct, and the player can pay the cost of the construct type,
  \<open>buildConstruct\<close> followed at once by \<open>demolishConstruct\<close> on the same tile succeeds
  twice and leaves the tile without a construct; for \<open>GOLD\<close> the player's \<open>goldRate\<close>, for
  \<open>UNIT\<close> the \<open>unitRate\<close> is the one before the build, for \<open>DEFENSE\<close> the tile's
  \<open>defenseBonus\<close> is 0. The player's record differs from the one before only in the gold
  paid. Rates are exact rationals here.
\<close>

theorem build_demolish_roundtrip:
  assumes "gameState st = Some gs" and "lobbyState st = Some l"
    and "map_of (players gs) (myId st) = Some actor"
    and "inRows (grid gs) y" and "inRow (grid gs) x y"
    and "tile = grid gs ! nat y ! nat x"
    and "ownerId tile = Some (myId st)" and "construct tile = None"
    and "constructCost T = Some cost" and "cost \<le> gold actor"
  shows "\<exists>st1 st2 gs2 actor2.
           buildConstruct st x y T = Inr (True, st1) \<and>
           demolishConstruct st1 x y = Inr (True, st2) \<and>
           gameState st2 = Some gs2 \<and>
           construct (grid gs2 ! nat y ! nat x) = None \<and>
           map_of (players gs2) (myId st) = Some actor2 \<and>
           (T = GOLD \<longrightarrow> goldRate actor2 = goldRate actor) \<and>
           (T = UNIT \<longrightarrow> unitRate actor2 = unitRate actor) \<and>
           (T = DEFENSE \<longrightarrow> defenseBonus (grid gs2 ! nat y ! nat x) = 0) \<and>
           actor2 = actor\<lparr>gold := gold actor - cost\<rparr>"
proof -
  let ?me = "myId st"
  let ?gs1 = "buildApply ?me gs x y T cost"
  let ?st1 = "st\<lparr>gameState := Some ?gs1\<rparr>"
  have T: "T \<noteq> NONE"
    using assms(9) by (auto simp: constructCost_def)
  have b: "buildConstruct st x y T = Inr (True, ?st1)"
    unfolding buildConstruct_def using assms(1,2)
    by (rule onStore_accept)
       (rule buildConstructOn_accept[OF assms(4,5,3) _ _ assms(9,10)];
        simp add: assms(6)[symmetric] assms(7,8))
  have t1: "grid ?gs1 ! nat y ! nat x =
              tile\<lparr>construct := Some \<lparr>ctype = T, cownerId = Some ?me\<rparr>,
                   defenseBonus := (if T = DEFENSE then 10 else defenseBonus tile)\<rparr>"
    unfolding assms(6) by (rule buildApply_tile[OF assms(4,5) T])
  let ?a1 = "actor\<lparr>gold := gold actor - cost,
                       goldRate := (if T = GOLD then goldRate actor + 1 else goldRate actor),
                       unitRate := (if T = UNIT then unitRate actor + 1 else unitRate actor)\<rparr>"
  have a1: "map_of (players ?gs1) ?me = Some ?a1"
    by (rule buildApply_actor[OF assms(3)])
  from demolishApply_ok[OF a1, of x y T] obtain gs2 where
    d: "demolishApply ?me ?gs1 x y T = Inr gs2"
    and g2: "grid gs2 = updateTile
                        (if T = DEFENSE then updateTile (grid ?gs1) x y (\<lambda>t. t\<lparr>defenseBonus := 0\<rparr>)
                         else grid ?gs1)
                        x y (\<lambda>t. t\<lparr>construct := None\<rparr>)"
    and a2: "map_of (players gs2) ?me =
             Some (?a1\<lparr>goldRate := (if T = GOLD then goldRate ?a1 - 1 else goldRate ?a1),
                     unitRate := (if T = UNIT then unitRate ?a1 - 1 else unitRate ?a1)\<rparr>)"
    by blast
  have in1: "inRows (grid ?gs1) y" "inRow (grid ?gs1) x y"
    using assms(4,5) by simp_all
  have "demolishConstructOn ?me ?gs1 x y = Inr (Some gs2)"
    by (rule demolishConstructOn_accept[OF in1, where c = "\<lparr>ctype = T, cownerId = Some ?me\<rparr>"])
       (simp_all add: t1 assms(7) d)
  then have dm: "demolishConstruct ?st1 x y = Inr (True, ?st1\<lparr>gameState := Some gs2\<rparr>)"
    unfolding demolishConstruct_def
    by (intro onStore_accept[where gs = ?gs1 and l = l]) (simp_all add: assms(2))
  have t2: "grid gs2 ! nat y ! nat x =
              tile\<lparr>defenseBonus := (if T = DEFENSE then 0 else defenseBonus tile)\<rparr>"
    using in1 assms(8) t1 by (cases "T = DEFENSE") (simp_all add: g2 nth_updateTile)
  have a2': "map_of (players gs2) ?me = Some (actor\<lparr>gold := gold actor - cost\<rparr>)"
    unfolding a2 by simp
  show ?thesis
    using b dm t2 a2' assms(8) by (intro exI[of _ ?st1] exI[of _ "?st1\<lparr>gameState := Some gs2\<rparr>"]
        exI[of _ gs2] exI[of _ "actor\<lparr>gold := gold actor - cost\<rparr>"]) simp
qed

theorem build_demolish_roundtrip_witness:
  "\<exists>st1 st2 gs2 actor2.
     buildConstruct buildStore 3 3 GOLD = Inr (True, st1) \<and>
     demolishConstruct st1 3 3 = Inr (True, st2) \<and>
     gameState st2 = Some gs2 \<and>
     construct (grid gs2 ! 3 ! 3) = None \<and>
     map_of (players gs2) ''A'' = Some actor2 \<and>
     goldRate actor2 = 1 \<and> gold actor2 = 10"
proof -
  let ?gs = "soloGame\<lparr>players := [(''A'', playerA\<lparr>gold := 30, tiles := [(3, 3)]\<rparr>)]\<rparr>"
  let ?actor = "playerA\<lparr>gold := 30, tiles := [(3, 3)]\<rparr>"
  have h1: "gameState buildStore = Some ?gs"
    by (simp add: buildStore_def)
  have h2: "lobbyState buildStore = Some (lobbyOf (players soloGame))"
    by (simp add: buildStore_def soloStore_def)
  have h3: "map_of (players ?gs) (myId buildStore) = Some ?actor"
    by (simp add: buildStore_def soloStore_def)
  have h4: "inRows (grid ?gs) 3"
    by (simp add: soloGame_def inRows_emptyGrid)
  have h5: "inRow (grid ?gs) 3 3"
    by (simp add: soloGame_def inRows_emptyGrid inRow_emptyGrid)
  have t: "grid ?gs ! nat 3 ! nat 3 =
             (emptyTile 3 3)\<lparr>ownerId := Some ''A'', tcolor := Some ''#3498db''\<rparr>"
    by (simp add: soloGame_def grid_simps)
  have h7: "ownerId (grid ?gs ! nat 3 ! nat 3) = Some (myId buildStore)"
    unfolding t by (simp add: buildStore_def soloStore_def)
  have h8: "construct (grid ?gs ! nat 3 ! nat 3) = None"
    unfolding t by (simp add: emptyTile_def)
  have h9: "constructCost GOLD = Some 20"
    by (simp add: constructCost_def)
  have h10: "20 \<le> gold ?actor"
    by simp
  from build_demolish_roundtrip[OF h1 h2 h3 h4 h5 refl h7 h8 h9 h10]
  show ?thesis
    by (auto simp: buildStore_def soloStore_def playerA_def newPlayer_def)
qed

text \<open>
  C8, as stated, fails on the exact gain: the sums are binary64 sums. In the game started
  by two players, \<open>A\<close> has rate 1 and after two ticks 0.2 gold; the third tick gives
  0.30000000000000004, a gain that is neither the rational \<open>1 / 10\<close> nor the binary64
  quotient \<open>1 / 10\<close>.
\<close>

theorem third_tick_gain:
  "map_option gold (playerOf (runTicks startedStore [1100, 1200]) ''A'') =
     Some (3602879701896397 / 18014398509481984) \<and>
   map_option goldRate (playerOf (runTicks startedStore [1100, 1200]) ''A'') = Some 1 \<and>
   map_option gold (playerOf (runTicks startedStore [1100, 1200, 1300]) ''A'') =
     Some (1351079888211149 / 4503599627370496) \<and>
   1351079888211149 / 4503599627370496 - 3602879701896397 / 18014398509481984 \<noteq> (1 / 10 :: rat) \<and>
   1351079888211149 / 4503599627370496 - 3602879701896397 / 18014398509481984 \<noteq> fdiv 1 10"
proof -
  let ?p = "playerA\<lparr>tiles := [(3, 3)]\<rparr>"
  have m: "map_of (players startedGame) ''A'' = Some ?p" and t: "tiles ?p \<noteq> []"
    by (simp_all add: startedGame_fields)
  have r: "goldRate playerA = 1" "gold playerA = 0"
    by (simp_all add: playerA_def newPlayer_def)
  have two: "playerOf (runTicks startedStore [1100, 1200]) ''A'' =
           Some (?p\<lparr>gold := ((\<lambda>g. fadd g (fdiv (goldRate ?p) 10)) ^^ length [1100, 1200 :: int]) (gold ?p),
                   units := ((\<lambda>u. fadd u (fdiv (unitRate ?p) 10)) ^^ length [1100, 1200 :: int]) (units ?p)\<rparr>)"
    by (rule playerOf_runTicks[OF startedStore_game startedGame_fields(3) _ m t])
       (simp add: timeIsUp_def startedGame_fields)
  have three: "playerOf (runTicks startedStore [1100, 1200, 1300]) ''A'' =
           Some (?p\<lparr>gold := ((\<lambda>g. fadd g (fdiv (goldRate ?p) 10)) ^^ length [1100, 1200, 1300 :: int]) (gold ?p),
                   units := ((\<lambda>u. fadd u (fdiv (unitRate ?p) 10)) ^^ length [1100, 1200, 1300 :: int]) (units ?p)\<rparr>)"
    by (rule playerOf_runTicks[OF startedStore_game startedGame_fields(3) _ m t])
       (simp add: timeIsUp_def startedGame_fields)
  have g2: "map_option gold (playerOf (runTicks startedStore [1100, 1200]) ''A'') =
     Some (3602879701896397 / 18014398509481984)"
    unfolding two by (simp add: r eval_nat_numeral accrue_steps)
  have r2: "map_option goldRate (playerOf (runTicks startedStore [1100, 1200]) ''A'') = Some 1"
    unfolding two by (simp add: r)
  have g3: "map_option gold (playerOf (runTicks startedStore [1100, 1200, 1300]) ''A'') =
     Some (1351079888211149 / 4503599627370496)"
    unfolding three by (simp add: r eval_nat_numeral accrue_steps)
  have n1: "1351079888211149 / 4503599627370496 - 3602879701896397 / 18014398509481984 \<noteq> (1 / 10 :: rat)"
    by simp
  have n2: "1351079888211149 / 4503599627370496 - 3602879701896397 / 18014398509481984 \<noteq> fdiv 1 10"
    by (simp add: tenth)
  from g2 r2 g3 n1 n2 show ?thesis by blast
qed

text \<open>
  C8, amended. A tick of the ticker before the end of the game replaces the gold of every
  player with a non-empty \<open>tiles\<close> list by the binary64 sum of the gold and the binary64
  quotient \<open>goldRate / 10\<close>, the units by the binary64 sum of the units and the quotient
  \<open>unitRate / 10\<close>, and leaves every player without tiles as it was. Hence a player who
  holds a tile, with gold 0 and \<open>goldRate\<close> 1, has after ten ticks the gold
  0.9999999999999999, which is \<open>1 - 2\<^sup>-\<^sup>5\<^sup>3\<close> and lies within the machine epsilon
  \<open>2\<^sup>-\<^sup>5\<^sup>2\<close> of 1.
\<close>

theorem tick_accrual:
  assumes "gameState st = Some gs" and "\<not> gameOver gs"
  shows "(\<not> timeIsUp gs now \<longrightarrow>
            (\<exists>gs'. gameState (tick st now) = Some gs' \<and>
               length (players gs') = length (players gs) \<and>
               (\<forall>i < length (players gs).
                  fst (players gs' ! i) = fst (players gs ! i) \<and>
                  snd (players gs' ! i) =
                    (if tiles (snd (players gs ! i)) = [] then snd (players gs ! i)
                     else (snd (players gs ! i))
                            \<lparr>gold := fadd (gold (snd (players gs ! i)))
                                         (fdiv (goldRate (snd (players gs ! i))) 10),
                             units := fadd (units (snd (players gs ! i)))
                                          (fdiv (unitRate (snd (players gs ! i))) 10)\<rparr>)))) \<and>
         (\<forall>k p firings.
            map_of (players gs) k = Some p \<and> tiles p \<noteq> [] \<and> gold p = 0 \<and> goldRate p = 1 \<and>
            length firings = 10 \<and> (\<forall>t \<in> set firings. \<not> timeIsUp gs t) \<longrightarrow>
            (\<exists>gs' p'. gameState (runTicks st firings) = Some gs' \<and>
                       map_of (players gs') k = Some p' \<and>
                       gold p' = 1 - 1 / 2 ^ 53 \<and> \<bar>gold p' - 1\<bar> \<le> 1 / 2 ^ 52))"
proof (intro conjI impI allI)
  assume nt: "\<not> timeIsUp gs now"
  let ?gs1 = "updateResources gs now"
  have u: "?gs1 = gs\<lparr>players := map (\<lambda>(k, p). (k,
                  if tiles p = [] then p
                  else p\<lparr>gold := fadd (gold p) (fdiv (goldRate p) 10),
                         units := fadd (units p) (fdiv (unitRate p) 10)\<rparr>))
                (players gs)\<rparr>"
    by (rule updateResources_running[OF nt])
  have "gameState (tick st now) = Some ?gs1"
    by (simp add: tick_running[OF assms])
  moreover have "length (players ?gs1) = length (players gs)"
    by (simp add: u)
  moreover have "fst (players ?gs1 ! i) = fst (players gs ! i) \<and>
                  snd (players ?gs1 ! i) =
                    (if tiles (snd (players gs ! i)) = [] then snd (players gs ! i)
                     else (snd (players gs ! i))
                            \<lparr>gold := fadd (gold (snd (players gs ! i)))
                                         (fdiv (goldRate (snd (players gs ! i))) 10),
                             units := fadd (units (snd (players gs ! i)))
                                          (fdiv (unitRate (snd (players gs ! i))) 10)\<rparr>)"
    if "i < length (players gs)" for i
    using that unfolding u by (cases "players gs ! i") simp
  ultimately show "\<exists>gs'. gameState (tick st now) = Some gs' \<and>
               length (players gs') = length (players gs) \<and>
               (\<forall>i < length (players gs).
                  fst (players gs' ! i) = fst (players gs ! i) \<and>
                  snd (players gs' ! i) =
                    (if tiles (snd (players gs ! i)) = [] then snd (players gs ! i)
                     else (snd (players gs ! i))
                            \<lparr>gold := fadd (gold (snd (players gs ! i)))
                                         (fdiv (goldRate (snd (players gs ! i))) 10),
                             units := fadd (units (snd (players gs ! i)))
                                          (fdiv (unitRate (snd (players gs ! i))) 10)\<rparr>))"
    by blast
next
  fix k p firings
  assume h: "map_of (players gs) k = Some p \<and> tiles p \<noteq> [] \<and> gold p = 0 \<and> goldRate p = 1 \<and>
            length firings = 10 \<and> (\<forall>t \<in> set firings. \<not> timeIsUp gs t)"
  then have hs: "\<forall>t \<in> set firings. \<not> timeIsUp gs t" "map_of (players gs) k = Some p"
    by simp_all
  from runTicks_accrual[OF assms hs] obtain gs' where
    g: "gameState (runTicks st firings) = Some gs'"
    and m: "map_of (players gs') k =
             Some (p\<lparr>gold := ((\<lambda>g. fadd g (fdiv 1 10)) ^^ 10) 0,
                     units := ((\<lambda>u. fadd u (fdiv (unitRate p) 10)) ^^ 10) (units p)\<rparr>)"
    using h by auto
  show "\<exists>gs' p'. gameState (runTicks st firings) = Some gs' \<and>
                       map_of (players gs') k = Some p' \<and>
                       gold p' = 1 - 1 / 2 ^ 53 \<and> \<bar>gold p' - 1\<bar> \<le> 1 / 2 ^ 52"
    using g m unfolding ten_accruals
    by (intro exI[of _ gs'] exI[of _ "p\<lparr>gold := 9007199254740991 / 9007199254740992,
                     units := ((\<lambda>u. fadd u (fdiv (unitRate p) 10)) ^^ 10) (units p)\<rparr>"]) simp
qed

theorem tick_accrual_witness:
  "gameState startedStore = Some startedGame \<and> \<not> gameOver startedGame \<and>
   (\<exists>gs' p'. gameState (runTicks startedStore
                 [1100, 1200, 1300, 1400, 1500, 1600, 1700, 1800, 1900, 2000]) = Some gs' \<and>
              map_of (players gs') ''A'' = Some p' \<and>
              gold p' = 9007199254740991 / 9007199254740992)"
proof -
  let ?firings = "[1100, 1200, 1300, 1400, 1500, 1600, 1700, 1800, 1900, 2000] :: int list"
  let ?p = "playerA\<lparr>tiles := [(3, 3)]\<rparr>"
  note inst = tick_accrual[OF startedStore_game startedGame_fields(3), of 1100]
  have "map_of (players startedGame) ''A'' = Some ?p \<and> tiles ?p \<noteq> [] \<and> gold ?p = 0 \<and>
        goldRate ?p = 1 \<and> length ?firings = 10 \<and>
        (\<forall>t \<in> set ?firings. \<not> timeIsUp startedGame t)"
    by (simp add: startedGame_fields timeIsUp_def playerA_def newPlayer_def)
  with inst have "\<exists>gs' p'. gameState (runTicks startedStore ?firings) = Some gs' \<and>
              map_of (players gs') ''A'' = Some p' \<and>
              gold p' = 1 - 1 / 2 ^ 53 \<and> \<bar>gold p' - 1\<bar> \<le> 1 / 2 ^ 52"
    by blast
  moreover have "(1 - 1 / 2 ^ 53 :: rat) = 9007199254740991 / 9007199254740992"
    by simp
  ultimately show ?thesis
    by (auto simp: startedStore_game startedGame_fields)
qed

text \<open>
  C9, as stated, fails: a successful claim of a contested tile can also change \<open>gameOver\<close>
  and \<open>winner\<close>. In the contested example the capture of the last tile of \<open>B\<close> turns
  \<open>gameOver\<close> from false to true and \<open>winner\<close> from null to \<open>A\<close>.
\<close>

theorem capture_changes_gameOver:
  "claimTile duelStore 5 5 12 15 = Inr (True, duelStore\<lparr>gameState := Some duelAfter\<rparr>) \<and>
   contested ''A'' (grid duelGame ! 5 ! 5) \<and>
   \<not> gameOver duelGame \<and> gameOver duelAfter \<and>
   winner duelGame = None \<and> winner duelAfter = Some ''A''"
proof -
  have "claimTile duelStore 5 5 12 15 = Inr (True, duelStore\<lparr>gameState := Some duelAfter\<rparr>)"
    unfolding claimTile_def
    by (rule onStore_accept[where gs = duelGame]) (simp_all add: duelStore_def duel_claim)
  moreover have "contested ''A'' (grid duelGame ! 5 ! 5)"
    by (simp add: duel_tile contested_def)
  moreover have "\<not> gameOver duelGame" "winner duelGame = None"
    by (simp_all add: duelGame_def)
  moreover have "gameOver duelAfter" "winner duelAfter = Some ''A''"
    by (simp_all add: duelAfter_def)
  ultimately show ?thesis by blast
qed

text \<open>
  C9, amended. A successful claim of a contested tile rewrites, on the grid, only the
  \<open>ownerId\<close> and the color of the tile: its construct (with the stored owner) and its
  \<open>defenseBonus\<close> stay. On the roster it changes only gold, units and tiles of the acting
  player and the tiles of the previous owner. Of the remaining fields, \<open>gameOver\<close> and
  \<open>winner\<close> change only when the capture leaves exactly one player with tiles.
\<close>

theorem claimTile_capture_frame:
  assumes "claimTile st x y goldCost unitCost = Inr (True, st')"
    and "gameState st = Some gs" and "gameState st' = Some gs'"
    and "tile = grid gs ! nat y ! nat x"
    and "contested (myId st) tile"
  shows "\<exists>actor. map_of (players gs) (myId st) = Some actor \<and>
           grid gs' = (grid gs)[nat y := (grid gs ! nat y)
                          [nat x := tile\<lparr>ownerId := Some (myId st), tcolor := Some (color actor)\<rparr>]] \<and>
           construct (grid gs' ! nat y ! nat x) = construct tile \<and>
           defenseBonus (grid gs' ! nat y ! nat x) = defenseBonus tile \<and>
           length (players gs') = length (players gs) \<and>
           (\<forall>i < length (players gs).
              fst (players gs' ! i) = fst (players gs ! i) \<and>
              (if fst (players gs ! i) = myId st
               then (snd (players gs' ! i))
                      \<lparr>gold := gold (snd (players gs ! i)), units := units (snd (players gs ! i)),
                       tiles := tiles (snd (players gs ! i))\<rparr> = snd (players gs ! i)
               else if ownerId tile = Some (fst (players gs ! i))
               then (snd (players gs' ! i))\<lparr>tiles := tiles (snd (players gs ! i))\<rparr> =
                      snd (players gs ! i)
               else snd (players gs' ! i) = snd (players gs ! i))) \<and>
           gameStarted gs' = gameStarted gs \<and> currentTurn gs' = currentTurn gs \<and>
           gameEndTime gs' = gameEndTime gs \<and>
           (length (filter (\<lambda>p. tiles p \<noteq> []) (map snd (players gs'))) \<noteq> 1 \<longrightarrow>
              gameOver gs' = gameOver gs \<and> winner gs' = winner gs)"
proof -
  from onStore_TrueD[OF assms(1)[unfolded claimTile_def]] assms(2,3)
  have ok: "claimTileOn (myId st) gs x y goldCost unitCost = Inr (Some gs')"
    by auto
  let ?F = "\<lambda>(k, p). (k,
                 if k = myId st
                 then p\<lparr>gold := gold p - goldCost,
                        units := (if contested (myId st) (grid gs ! nat y ! nat x)
                                  then units p - unitCost else units p),
                        tiles := tiles p @ [(x, y)]\<rparr>
                 else if ownerId (grid gs ! nat y ! nat x) = Some k
                 then p\<lparr>tiles := filter (\<lambda>t. \<not> (fst t = x \<and> snd t = y)) (tiles p)\<rparr>
                 else p)"
  from claimTileOn_SomeD[OF ok] obtain actor where
    actor: "map_of (players gs) (myId st) = Some actor"
    and inG: "inRows (grid gs) y" "inRow (grid gs) x y"
    and gs': "gs' = checkElimination
                (gs\<lparr>grid := updateTile (grid gs) x y
                              (\<lambda>t. t\<lparr>ownerId := Some (myId st), tcolor := Some (color actor)\<rparr>),
                    players := map ?F (players gs)\<rparr>)"
    by blast
  have g: "grid gs' = (grid gs)[nat y := (grid gs ! nat y)
                          [nat x := tile\<lparr>ownerId := Some (myId st), tcolor := Some (color actor)\<rparr>]]"
    by (simp add: gs' updateTile_def assms(4))
  have t: "grid gs' ! nat y ! nat x = tile\<lparr>ownerId := Some (myId st), tcolor := Some (color actor)\<rparr>"
    using inG by (simp add: gs' nth_updateTile assms(4))
  have pl: "players gs' = map ?F (players gs)"
    by (simp add: gs')
  have c: "construct (grid gs' ! nat y ! nat x) = construct tile"
    and d: "defenseBonus (grid gs' ! nat y ! nat x) = defenseBonus tile"
    by (simp_all add: t)
  have len: "length (players gs') = length (players gs)"
    by (simp add: pl)
  have "fst (players gs' ! i) = fst (players gs ! i) \<and>
              (if fst (players gs ! i) = myId st
               then (snd (players gs' ! i))
                      \<lparr>gold := gold (snd (players gs ! i)), units := units (snd (players gs ! i)),
                       tiles := tiles (snd (players gs ! i))\<rparr> = snd (players gs ! i)
               else if ownerId tile = Some (fst (players gs ! i))
               then (snd (players gs' ! i))\<lparr>tiles := tiles (snd (players gs ! i))\<rparr> =
                      snd (players gs ! i)
               else snd (players gs' ! i) = snd (players gs ! i))"
    if "i < length (players gs)" for i
    using that unfolding pl assms(4)
    by (cases "players gs ! i") simp
  then have roster: "\<forall>i < length (players gs).
              fst (players gs' ! i) = fst (players gs ! i) \<and>
              (if fst (players gs ! i) = myId st
               then (snd (players gs' ! i))
                      \<lparr>gold := gold (snd (players gs ! i)), units := units (snd (players gs ! i)),
                       tiles := tiles (snd (players gs ! i))\<rparr> = snd (players gs ! i)
               else if ownerId tile = Some (fst (players gs ! i))
               then (snd (players gs' ! i))\<lparr>tiles := tiles (snd (players gs ! i))\<rparr> =
                      snd (players gs ! i)
               else snd (players gs' ! i) = snd (players gs ! i))"
    by blast
  have misc: "gameStarted gs' = gameStarted gs" "currentTurn gs' = currentTurn gs"
      "gameEndTime gs' = gameEndTime gs"
    by (simp_all add: gs' checkElimination_def Let_def)
  have "(\<lambda>p. 0 < length (tiles p)) = (\<lambda>p. tiles p \<noteq> [])"
    by auto
  then have over: "length (filter (\<lambda>p. tiles p \<noteq> []) (map snd (players gs'))) \<noteq> 1 \<longrightarrow>
              gameOver gs' = gameOver gs \<and> winner gs' = winner gs"
    unfolding pl by (simp add: gs' checkElimination_def Let_def)
  show ?thesis
    using actor g c d len roster misc over by blast
qed

theorem claimTile_capture_frame_witness:
  "claimTile duelStore 5 5 12 15 = Inr (True, duelStore\<lparr>gameState := Some duelAfter\<rparr>) \<and>
   contested ''A'' (grid duelGame ! 5 ! 5) \<and>
   construct (grid duelAfter ! 5 ! 5) = Some \<lparr>ctype = DEFENSE, cownerId = Some ''B''\<rparr> \<and>
   defenseBonus (grid duelAfter ! 5 ! 5) = 10"
proof -
  have h2: "gameState duelStore = Some duelGame"
    by (simp add: duelStore_def)
  have h3: "gameState (duelStore\<lparr>gameState := Some duelAfter\<rparr>) = Some duelAfter"
    by simp
  have h4: "grid duelGame ! 5 ! 5 = grid duelGame ! nat 5 ! nat 5"
    by simp
  have c: "contested ''A'' (grid duelGame ! 5 ! 5)"
    by (simp add: duel_tile contested_def)
  then have h5: "contested (myId duelStore) (grid duelGame ! 5 ! 5)"
    by (simp add: duelStore_def)
  from claimTile_capture_frame[OF duel_claim_store h2 h3 h4 h5]
  have "construct (grid duelAfter ! 5 ! 5) = construct (grid duelGame ! 5 ! 5) \<and>
        defenseBonus (grid duelAfter ! 5 ! 5) = defenseBonus (grid duelGame ! 5 ! 5)"
    by auto
  with duel_claim_store c show ?thesis
    by (simp add: duel_tile)
qed



end
